theory Spec2Isabelle
  imports Complex_Main
begin

section \<open>PresetAnalyzer: a seven-band equaliser preset derived from a spectrum\<close>

text \<open>
  The embedding follows \<^verbatim>\<open>src/PresetAnalyzer.py\<close>. Python floats are modelled as
  \<^typ>\<open>real\<close>: every statement below is about exact real arithmetic, and rounding, infinities
  and NaN are outside the model. \<^verbatim>\<open>np.log10\<close> is \<^term>\<open>log 10\<close>, \<^verbatim>\<open>pow(10, x)\<close> is
  \<^term>\<open>10 powr x\<close>, Python's \<^verbatim>\<open>min\<close>/\<^verbatim>\<open>max\<close> on two numbers are \<^const>\<open>min\<close>/\<^const>\<open>max\<close>.
  Exceptions are values of type \<open>error\<close>, and a function that can raise returns
  \<open>error + 'a\<close>.
\<close>

datatype error = ValueError | TypeError | IndexError | KeyError | ZeroDivisionError

definition ebind :: "error + 'a \<Rightarrow> ('a \<Rightarrow> error + 'b) \<Rightarrow> error + 'b" where
  "ebind m f = (case m of Inl e \<Rightarrow> Inl e | Inr v \<Rightarrow> f v)"

subsection \<open>Normalisation (lines 643-672)\<close>

definition normalize_frequency :: "real \<Rightarrow> real" where
  "normalize_frequency freq =
     (let min_freq = 20; max_freq = 20000;
          normalized = (log 10 freq - log 10 min_freq) / (log 10 max_freq - log 10 min_freq)
      in max 0 (min 1 normalized))"

definition normalize_gain :: "real \<Rightarrow> real" where
  "normalize_gain gain =
     (let min_gain = - 24; max_gain = 24;
          normalized = (gain - min_gain) / (max_gain - min_gain)
      in max 0 (min 1 normalized))"

definition normalize_q :: "real \<Rightarrow> real" where
  "normalize_q q =
     (let min_q = 0.1; max_q = 10;
          normalized = (log 10 q - log 10 min_q) / (log 10 max_q - log 10 min_q)
      in max 0 (min 1 normalized))"

text \<open>
  The inverse of \<^const>\<open>normalize_q\<close>, as \<^verbatim>\<open>analyze_audio\<close> writes it inline at lines 595
  and 612: \<^verbatim>\<open>0.1 * pow(10, normalized_q * (np.log10(10) - np.log10(0.1)))\<close>.
\<close>

definition denormalize_q :: "real \<Rightarrow> real" where
  "denormalize_q normalized_q = 0.1 * 10 powr (normalized_q * (log 10 10 - log 10 0.1))"



subsection \<open>The gain map in double arithmetic\<close>

text \<open>
  The definitions above compute in exact real arithmetic. This is line 662 as IEEE double
  arithmetic computes it. \<open>round_half_even\<close> rounds a real to the nearest integer, a tie to
  the even one.
\<close>

definition round_half_even :: "real \<Rightarrow> int" where
  "round_half_even r =
     (let f = \<lfloor>r\<rfloor>
      in if r - of_int f < 1 / 2 then f
         else if r - of_int f > 1 / 2 then f + 1
         else if even f then f else f + 1)"

text \<open>
  The nearest double: a 53-bit significand at the exponent of the value, rounded to nearest,
  ties to even, with the fixed spacing 2 to the -1074 below 2 to the -1022. Overflow to
  infinity is outside the model.
\<close>

definition round_double :: "real \<Rightarrow> real" where
  "round_double x =
     (if x = 0 then 0
      else let e = max \<lfloor>log 2 \<bar>x\<bar>\<rfloor> (- 1022);
               ulp = 2 powr (of_int e - 52)
           in of_int (round_half_even (x / ulp)) * ulp)"

text \<open>
  \<^verbatim>\<open>normalized = (gain - min_gain) / (max_gain - min_gain)\<close> with every operation
  rounded, and the clamp of line 663 (which is exact).
\<close>

definition normalize_gain_double :: "real \<Rightarrow> real" where
  "normalize_gain_double gain =
     (let min_gain = - 24; max_gain = 24;
          normalized = round_double (round_double (gain - min_gain)
                                       / round_double (max_gain - min_gain))
      in max 0 (min 1 normalized))"

subsection \<open>Lists as numpy arrays\<close>

text \<open>
  Indices are natural numbers: every index the program computes comes from \<^verbatim>\<open>np.argmin\<close>,
  \<^verbatim>\<open>np.argmax\<close> or a loop that stays at or above zero. \<^verbatim>\<open>xs[i]\<close> raises IndexError
  out of range; a slice \<^verbatim>\<open>xs[lo:hi]\<close> never raises.
\<close>

definition index :: "'a list \<Rightarrow> nat \<Rightarrow> error + 'a" where
  "index xs i = (if i < length xs then Inr (xs ! i) else Inl IndexError)"

definition slice :: "'a list \<Rightarrow> nat \<Rightarrow> nat \<Rightarrow> 'a list" where
  "slice xs lo hi = drop lo (take hi xs)"

text \<open>
  \<^verbatim>\<open>np.argmin\<close> and \<^verbatim>\<open>np.argmax\<close> return the index of the first occurrence of the extreme
  value and raise ValueError on an empty array.
\<close>

definition np_argmin :: "real list \<Rightarrow> error + nat" where
  "np_argmin xs =
     (if xs = [] then Inl ValueError
      else Inr (length (takeWhile (\<lambda>x. x \<noteq> Min (set xs)) xs)))"

definition np_argmax :: "real list \<Rightarrow> error + nat" where
  "np_argmax xs =
     (if xs = [] then Inl ValueError
      else Inr (length (takeWhile (\<lambda>x. x \<noteq> Max (set xs)) xs)))"

text \<open>\<^verbatim>\<open>np.argmin(np.abs(freqs - target))\<close>: the bin nearest to a target frequency.\<close>

definition nearest_idx :: "real list \<Rightarrow> real \<Rightarrow> error + nat" where
  "nearest_idx freqs target = np_argmin (map (\<lambda>f. \<bar>f - target\<bar>) freqs)"

text \<open>
  \<^verbatim>\<open>np.mean\<close>; every call in the program is guarded by \<^verbatim>\<open>len(...) > 0\<close>. (On an empty
  array numpy warns and returns NaN; the model's value there is 0.)
\<close>

definition np_mean :: "real list \<Rightarrow> real" where
  "np_mean xs = sum_list xs / real (length xs)"

text \<open>\<^verbatim>\<open>np.median\<close> of a non-empty array: the middle of the sorted values.\<close>

definition np_median :: "real list \<Rightarrow> real" where
  "np_median xs =
     (let s = sort xs; n = length s
      in if odd n then s ! (n div 2) else (s ! (n div 2 - 1) + s ! (n div 2)) / 2)"

text \<open>
  \<^verbatim>\<open>np.average(a, weights=w)\<close> with no axis: numpy raises TypeError ("Axis must be
  specified when shapes of a and weights differ") when the two shapes differ, and
  ZeroDivisionError when the weights sum to zero.
\<close>

definition np_average :: "real list \<Rightarrow> real list \<Rightarrow> error + real" where
  "np_average a w =
     (if length a \<noteq> length w then Inl TypeError
      else if sum_list w = 0 then Inl ZeroDivisionError
      else Inr (sum_list (map2 (*) a w) / sum_list w))"

subsection \<open>Bandwidth-derived Q (\<^verbatim>\<open>calculate_q_from_spectrum\<close>, lines 78-133)\<close>

text \<open>
  The two \<^verbatim>\<open>while\<close> loops. Both read \<^verbatim>\<open>spectrum\<close> only at indices between 0 and
  \<^verbatim>\<open>len(spectrum) - 1\<close>, since they start at an interior index.
\<close>

fun lower_walk :: "real list \<Rightarrow> real \<Rightarrow> nat \<Rightarrow> nat" where
  "lower_walk spectrum half_power 0 = 0"
| "lower_walk spectrum half_power (Suc k) =
     (if spectrum ! Suc k > half_power then lower_walk spectrum half_power k else Suc k)"

function upper_walk :: "real list \<Rightarrow> real \<Rightarrow> nat \<Rightarrow> nat" where
  "upper_walk spectrum half_power upper_idx =
     (if int upper_idx < int (length spectrum) - 1 \<and> spectrum ! upper_idx > half_power
      then upper_walk spectrum half_power (upper_idx + 1) else upper_idx)"
  by pat_completeness auto
termination
  by (relation "measure (\<lambda>(spectrum, half_power, upper_idx). length spectrum - upper_idx)") auto

text \<open>The default of lines 101-109, by centre frequency.\<close>

definition tiered_default_q :: "real \<Rightarrow> real" where
  "tiered_default_q center_freq =
     (if center_freq < 100 then 0.7
      else if center_freq < 250 then 1.0
      else if center_freq < 2000 then 1.2
      else 1.5)"

text \<open>The frequency-dependent scaling of lines 121-130.\<close>

definition musical_scale :: "real \<Rightarrow> real \<Rightarrow> real" where
  "musical_scale center_freq q =
     (if center_freq < 100 then q * 0.5
      else if center_freq < 250 then q * 0.6
      else if center_freq < 800 then q * 0.7
      else if center_freq < 2500 then q * 0.8
      else if center_freq < 5000 then q * 0.9
      else q)"

definition calculate_q_from_spectrum :: "real list \<Rightarrow> nat \<Rightarrow> real list \<Rightarrow> error + real" where
  "calculate_q_from_spectrum spectrum peak_idx freqs =
     (if peak_idx \<le> 0 \<or> int peak_idx \<ge> int (length spectrum) - 1 then Inr 1.0
      else
        let peak_val = spectrum ! peak_idx;
            half_power = peak_val - 3.0;
            lower_idx = lower_walk spectrum half_power peak_idx;
            upper_idx = upper_walk spectrum half_power peak_idx
        in if upper_idx \<le> lower_idx \<or> upper_idx \<ge> length freqs \<or> int lower_idx < 0 then
             ebind (index freqs peak_idx) (\<lambda>center_freq. Inr (tiered_default_q center_freq))
           else
             ebind (index freqs peak_idx) (\<lambda>center_freq.
             ebind (index freqs upper_idx) (\<lambda>upper_freq.
             ebind (index freqs lower_idx) (\<lambda>lower_freq.
               let bandwidth = upper_freq - lower_freq
               in if bandwidth \<le> 0 then Inr 1.0
                  else Inr (min (max (musical_scale center_freq (center_freq / bandwidth)) 0.5)
                             4.0)))))"

subsection \<open>Reference level (\<^verbatim>\<open>calculate_reference_level\<close>, lines 150-178)\<close>

text \<open>
  The loop over \<^verbatim>\<open>ref_points\<close>, with the list \<^verbatim>\<open>ref_levels\<close> built so far as the
  accumulator: a band appends its median only when its index range is not empty.
\<close>

fun ref_levels_loop ::
  "real list \<Rightarrow> real list \<Rightarrow> (real \<times> real) list \<Rightarrow> real list \<Rightarrow> error + real list" where
  "ref_levels_loop spectrum freqs [] ref_levels = Inr ref_levels"
| "ref_levels_loop spectrum freqs ((low, high) # ref_points) ref_levels =
     ebind (nearest_idx freqs low) (\<lambda>low_idx.
     ebind (nearest_idx freqs high) (\<lambda>high_idx.
       if low_idx < high_idx then
         let band_spectrum = slice spectrum low_idx high_idx
         in if length band_spectrum > 0
            then ref_levels_loop spectrum freqs ref_points (ref_levels @ [np_median band_spectrum])
            else ref_levels_loop spectrum freqs ref_points ref_levels
       else ref_levels_loop spectrum freqs ref_points ref_levels))"

definition calculate_reference_level :: "real list \<Rightarrow> real list \<Rightarrow> error + real" where
  "calculate_reference_level spectrum freqs =
     ebind (ref_levels_loop spectrum freqs [(400, 600), (800, 1200), (2000, 3000)] [])
       (\<lambda>ref_levels.
          if ref_levels \<noteq> [] then np_average ref_levels [0.25, 0.5, 0.25] else Inr 0)"

subsection \<open>Transient analysis (\<^verbatim>\<open>analyze_transients\<close>, lines 301-334)\<close>

text \<open>
  \<^verbatim>\<open>scipy.signal.savgol_filter(x, window_length, polyorder)\<close> is library code. With its
  default mode \<^verbatim>\<open>'interp'\<close> scipy raises ValueError when \<^verbatim>\<open>polyorder\<close> is not less than
  \<^verbatim>\<open>window_length\<close>, and when \<^verbatim>\<open>window_length\<close> exceeds the size of \<^verbatim>\<open>x\<close>; both checks
  are written out here. The filtered values themselves are the parameter \<open>fit\<close>.
  \<^verbatim>\<open>scipy.signal.find_peaks\<close> is the parameter \<open>find_peaks\<close>, from the data and the
  height threshold to the peak indices.
\<close>

definition savgol_filter ::
  "(real list \<Rightarrow> nat \<Rightarrow> nat \<Rightarrow> real list) \<Rightarrow> real list \<Rightarrow> nat \<Rightarrow> nat \<Rightarrow> error + real list" where
  "savgol_filter fit x window_length polyorder =
     (if polyorder \<ge> window_length then Inl ValueError
      else if window_length > length x then Inl ValueError
      else Inr (fit x window_length polyorder))"

definition np_diff :: "real list \<Rightarrow> real list" where
  "np_diff xs = map2 (\<lambda>b a. b - a) (tl xs) xs"

definition np_std :: "real list \<Rightarrow> real" where
  "np_std xs = sqrt (np_mean (map (\<lambda>x. \<bar>x - np_mean xs\<bar> ^ 2) xs))"

text \<open>
  The sample rate is a natural number, and \<^verbatim>\<open>int(sr * 0.01)\<close> is \<open>sr div 100\<close>.
\<close>

definition analyze_transients ::
  "(real list \<Rightarrow> nat \<Rightarrow> nat \<Rightarrow> real list) \<Rightarrow> (real list \<Rightarrow> real \<Rightarrow> nat list) \<Rightarrow>
   real list \<Rightarrow> nat \<Rightarrow> error + real \<times> real" where
  "analyze_transients fit find_peaks y sr =
     (let envelope = map abs y;
          window_size = sr div 100;
          window_size = (if window_size mod 2 = 0 then window_size + 1 else window_size)
      in ebind (savgol_filter fit envelope window_size 3) (\<lambda>smoothed.
           let derivative = np_diff smoothed;
               peaks = find_peaks derivative (np_std derivative * 2)
           in ebind (if length y > 0
                     then (if sr = 0 then Inl ZeroDivisionError
                           else Inr (real (length peaks) / (real (length y) / real sr)))
                     else Inr 0) (\<lambda>transient_density.
                let transient_q_factor =
                      (if transient_density > 10 then 1.3
                       else if transient_density > 5 then 1.1
                       else 0.9)
                in Inr (transient_density, transient_q_factor))))"

subsection \<open>Frequency range (\<^verbatim>\<open>detect_frequency_range\<close>, lines 244-260)\<close>

definition detect_frequency_range :: "real list \<Rightarrow> real list \<Rightarrow> real \<Rightarrow> error + real \<times> real" where
  "detect_frequency_range spectrum freqs threshold_db =
     (let valid_indices = filter (\<lambda>i. spectrum ! i > threshold_db) [0..<length spectrum]
      in if length valid_indices > 0 then
           ebind (index freqs (hd valid_indices)) (\<lambda>min_f.
           ebind (index freqs (last valid_indices)) (\<lambda>max_f.
             Inr (max 20 min_f, min 20000 max_f)))
         else Inr (20, 20000))"

subsection \<open>Band extraction (\<^verbatim>\<open>analyze_audio\<close>, lines 421-569)\<close>

text \<open>Bands 0 to 2 (lines 435-468): the peak only.\<close>

definition lower_band ::
  "nat \<Rightarrow> real list \<Rightarrow> real list \<Rightarrow> real \<Rightarrow> error + real \<times> real \<times> real" where
  "lower_band i range_spectrum freq_array reference_level =
     (let band_avg = np_mean range_spectrum
      in ebind (np_argmax range_spectrum) (\<lambda>peak_idx.
         ebind (index freq_array peak_idx) (\<lambda>freq.
           let gain = band_avg - reference_level;
               gain = (if gain < 0 then gain * 0.7 else gain * 1.2)
           in if i = 0 then
                let gain = gain * 0.9
                in ebind (calculate_q_from_spectrum range_spectrum peak_idx freq_array) (\<lambda>q.
                     Inr (freq, gain, min (q * 0.7) 0.8))
              else if i = 1 then
                ebind (calculate_q_from_spectrum range_spectrum peak_idx freq_array) (\<lambda>q.
                  Inr (freq, gain, min (q * 0.8) 1.2))
              else
                let gain = (if gain > 0 then gain * 1.1 else gain)
                in ebind (calculate_q_from_spectrum range_spectrum peak_idx freq_array) (\<lambda>q.
                     Inr (freq, gain, min (q * 0.9) 1.5)))))"

text \<open>
  Bands 3 to 6: the band-specific Q of a peak (lines 500-507) and of a dip (lines 515-525).
\<close>

definition peak_band_q :: "nat \<Rightarrow> real \<Rightarrow> real" where
  "peak_band_q i q =
     (if i = 3 then min (q * 0.9) 1.8
      else if i = 4 then min (q * 0.95) 2.0
      else if i = 5 then min q 2.5
      else min (q * 0.8) 1.5)"

definition dip_band_q :: "nat \<Rightarrow> real \<Rightarrow> real" where
  "dip_band_q i q =
     (let q = q * 0.8
      in if i = 3 then min q 1.5
         else if i = 4 then min q 1.7
         else if i = 5 then min q 2.0
         else min q 1.2)"

text \<open>Bands 3 to 6 (lines 470-538): the more significant of the peak and the dip.\<close>

definition upper_band ::
  "nat \<Rightarrow> real list \<Rightarrow> real list \<Rightarrow> real \<Rightarrow> error + real \<times> real \<times> real" where
  "upper_band i range_spectrum freq_array reference_level =
     (let band_avg = np_mean range_spectrum
      in ebind (np_argmax range_spectrum) (\<lambda>peak_idx.
         ebind (np_argmin range_spectrum) (\<lambda>dip_idx.
         ebind (index range_spectrum peak_idx) (\<lambda>peak_val.
         ebind (index range_spectrum dip_idx) (\<lambda>dip_val.
           let peak_significance = peak_val - band_avg;
               dip_significance = band_avg - dip_val;
               dip_significance = (if i = 3 then dip_significance * 1.15 else dip_significance);
               peak_significance =
                 (if i = 3 then peak_significance
                  else if i = 4 then peak_significance * 1.1
                  else if i \<ge> 5 then peak_significance * 1.2
                  else peak_significance)
           in ebind
                (if peak_significance > dip_significance then
                   ebind (index freq_array peak_idx) (\<lambda>freq.
                   ebind (calculate_q_from_spectrum range_spectrum peak_idx freq_array) (\<lambda>q.
                     Inr (freq, peak_val - reference_level, peak_band_q i q)))
                 else
                   ebind (index freq_array dip_idx) (\<lambda>freq.
                   ebind (calculate_q_from_spectrum range_spectrum dip_idx freq_array) (\<lambda>q.
                     Inr (freq, dip_val - reference_level, dip_band_q i q))))
                (\<lambda>(freq, gain, q).
                   let gain = (if i \<ge> 5 then gain * 0.8 else gain);
                       gain = (if i = 3 then gain * 0.9
                               else if i = 4 then gain * 0.85
                               else gain)
                   in Inr (freq, gain, q)))))))"

text \<open>
  The adjustments every band gets (lines 540-553): Q narrows with the gain, is multiplied by
  the transient factor, and gain and Q are clamped to [-12, 6] and [0.5, 2.0].
\<close>

definition finish_band :: "real \<Rightarrow> real \<times> real \<times> real \<Rightarrow> real \<times> real \<times> real" where
  "finish_band transient_q_factor r =
     (case r of (freq, gain, q) \<Rightarrow>
        let q = (if \<bar>gain\<bar> > 10 then q * 0.6 else if \<bar>gain\<bar> > 6 then q * 0.8 else q);
            q = q * transient_q_factor;
            gain = max (min gain 6) (- 12);
            q = max (min q 2.0) 0.5
        in (freq, gain, q))"

text \<open>The raw (frequency, gain, Q) of a band whose slice is not empty.\<close>

definition band_result ::
  "nat \<Rightarrow> real list \<Rightarrow> real list \<Rightarrow> real \<Rightarrow> real \<Rightarrow> error + real \<times> real \<times> real" where
  "band_result i range_spectrum freq_array reference_level transient_q_factor =
     ebind (if i \<le> 2 then lower_band i range_spectrum freq_array reference_level
            else upper_band i range_spectrum freq_array reference_level)
       (\<lambda>r. Inr (finish_band transient_q_factor r))"

text \<open>
  One iteration of the loop of line 421, up to the three normalised values it stores; an
  empty slice gives the fallback of lines 562-569.
\<close>

definition analyze_band ::
  "nat \<Rightarrow> real \<times> real \<Rightarrow> real list \<Rightarrow> real list \<Rightarrow> real \<Rightarrow> real \<Rightarrow> error + real \<times> real \<times> real" where
  "analyze_band i edges spectrum freqs reference_level transient_q_factor =
     (case edges of (low_freq, high_freq) \<Rightarrow>
        ebind (nearest_idx freqs low_freq) (\<lambda>low_idx.
        ebind (nearest_idx freqs high_freq) (\<lambda>high_idx.
          let range_spectrum = slice spectrum low_idx high_idx;
              freq_array = slice freqs low_idx high_idx
          in if length range_spectrum > 0 then
               ebind (band_result i range_spectrum freq_array reference_level
                        transient_q_factor) (\<lambda>(freq, gain, q).
                 Inr (normalize_frequency freq, normalize_gain gain, normalize_q q))
             else
               let freq = sqrt (low_freq * high_freq); gain = 0.0; q = 1.0
               in Inr (normalize_frequency freq, normalize_gain gain, normalize_q q))))"

subsection \<open>The preset\<close>

text \<open>
  \<^verbatim>\<open>preset_data\<close> is a dictionary. Its numeric entries are keyed by \<^verbatim>\<open>Frequency{i}\<close>,
  \<^verbatim>\<open>Gain{i}\<close>, \<^verbatim>\<open>Q{i}\<close> and \<^verbatim>\<open>ZeroLatency\<close>; the entry \<^verbatim>\<open>Metadata\<close> is a dictionary of
  its own, kept here as a record beside the map.
\<close>

datatype param = Frequency nat | Gain nat | Q nat | ZeroLatency

type_synonym preset_data = "param \<rightharpoonup> real"

record metadata =
  CreatedBy :: string
  SourceFile :: string
  CreationDate :: string
  TransientDensity :: real
  FrequencyRange :: "real \<times> real"

record preset =
  Metadata :: metadata
  params :: preset_data

definition freq_ranges :: "(real \<times> real) list" where
  "freq_ranges =
     [(20, 150), (150, 400), (400, 800), (800, 2500), (2500, 5000), (5000, 10000),
      (10000, 20000)]"

text \<open>The loop of line 421 over \<^verbatim>\<open>enumerate(freq_ranges)\<close>, with the dictionary as state.\<close>

fun band_loop ::
  "(nat \<times> real \<times> real) list \<Rightarrow> real list \<Rightarrow> real list \<Rightarrow> real \<Rightarrow> real \<Rightarrow> preset_data \<Rightarrow>
   error + preset_data" where
  "band_loop [] spectrum freqs reference_level transient_q_factor preset_data = Inr preset_data"
| "band_loop ((i, low_freq, high_freq) # bands) spectrum freqs reference_level
       transient_q_factor preset_data =
     ebind (analyze_band i (low_freq, high_freq) spectrum freqs reference_level
              transient_q_factor)
       (\<lambda>(f, g, q).
          band_loop bands spectrum freqs reference_level transient_q_factor
            (preset_data(Frequency i \<mapsto> f, Gain i \<mapsto> g, Q i \<mapsto> q)))"

subsection \<open>The final pass over the Q values (lines 590-613)\<close>

text \<open>The first loop: read \<^verbatim>\<open>Q{i}\<close> (KeyError when absent) and denormalise it.\<close>

fun read_actual_q :: "preset_data \<Rightarrow> nat list \<Rightarrow> error + real list" where
  "read_actual_q preset_data [] = Inr []"
| "read_actual_q preset_data (i # is) =
     (case preset_data (Q i) of
        None \<Rightarrow> Inl KeyError
      | Some normalized_q \<Rightarrow>
          ebind (read_actual_q preset_data is) (\<lambda>rest. Inr (denormalize_q normalized_q # rest)))"

text \<open>The second loop: scale, normalise again, clamp and store.\<close>

fun rescale_q :: "real list \<Rightarrow> real \<Rightarrow> nat list \<Rightarrow> preset_data \<Rightarrow> preset_data" where
  "rescale_q actual_q_values scale_factor [] preset_data = preset_data"
| "rescale_q actual_q_values scale_factor (i # is) preset_data =
     (let new_actual_q = actual_q_values ! i * scale_factor;
          new_normalized_q =
            (log 10 new_actual_q - log 10 0.1) / (log 10 10 - log 10 0.1)
      in rescale_q actual_q_values scale_factor is
           (preset_data(Q i \<mapsto> max 0.0 (min 1.0 new_normalized_q))))"

definition global_q_balancer :: "preset_data \<Rightarrow> error + preset_data" where
  "global_q_balancer preset_data =
     ebind (read_actual_q preset_data [0..<7]) (\<lambda>actual_q_values.
       if Max (set actual_q_values) > 2.0 then
         let scale_factor = 2.0 / Max (set actual_q_values)
         in Inr (rescale_q actual_q_values scale_factor [0..<7] preset_data)
       else Inr preset_data)"

subsection \<open>The core of \<^verbatim>\<open>analyze_audio\<close> (lines 384-613)\<close>

text \<open>
  The part of \<^verbatim>\<open>analyze_audio\<close> after the library calls: from the smoothed, weighted
  spectrum \<^verbatim>\<open>avg_spectrum_smooth\<close>, the bin frequencies, the two results of the transient
  analysis, the base name of the input file and the formatted reading of the clock
  (\<^verbatim>\<open>datetime.datetime.now()\<close>, line 416) to the preset that is written out. An \<open>Inl\<close>
  is an exception, which line 637 catches to return \<^verbatim>\<open>None\<close>. The spectral-balance
  report of line 389 is only printed and is left out; it raises only on an empty
  \<^verbatim>\<open>freqs\<close>, where the reference level after it raises the same error.
\<close>

definition analyze_core ::
  "string \<Rightarrow> string \<Rightarrow> real \<Rightarrow> real \<Rightarrow> real list \<Rightarrow> real list \<Rightarrow> error + preset" where
  "analyze_core source_file now transient_density transient_q_factor avg_spectrum_smooth freqs =
     ebind (detect_frequency_range avg_spectrum_smooth freqs (- 60)) (\<lambda>(min_freq, max_freq).
     ebind (calculate_reference_level avg_spectrum_smooth freqs) (\<lambda>reference_level.
     ebind (band_loop (enumerate 0 freq_ranges) avg_spectrum_smooth freqs reference_level
              transient_q_factor Map.empty) (\<lambda>preset_data.
     ebind (global_q_balancer (preset_data(ZeroLatency \<mapsto> 1.0))) (\<lambda>preset_data.
       Inr \<lparr>Metadata =
              \<lparr>CreatedBy = ''PresetAnalyzer'', SourceFile = source_file, CreationDate = now,
               TransientDensity = transient_density, FrequencyRange = (min_freq, max_freq)\<rparr>,
            params = preset_data\<rparr>))))"

subsection \<open>Constants of the upper bands, as tables\<close>

text \<open>
  The caps and factors that lines 500-525 apply to bands 3 to 6 (Mids, High Mids, Presence,
  Air), indexed by the band: the cap of a peak, the factor a peak's Q is multiplied by before
  the cap, and the cap of a dip.
\<close>

definition q_ceiling :: "nat \<Rightarrow> real" where
  "q_ceiling i = [1.8, 2.0, 2.5, 1.5] ! (i - 3)"

definition peak_scale :: "nat \<Rightarrow> real" where
  "peak_scale i = [0.9, 0.95, 1.0, 0.8] ! (i - 3)"

definition dip_ceiling :: "nat \<Rightarrow> real" where
  "dip_ceiling i = [1.5, 1.7, 2.0, 1.2] ! (i - 3)"

text \<open>
  The Q of a dip as the specification words it: widened by 0.8, then capped at the band's
  own ceiling 1.8 / 2.0 / 2.5 / 1.5. It is compared with \<^const>\<open>dip_band_q\<close> below.
\<close>

definition spec_dip_band_q :: "nat \<Rightarrow> real \<Rightarrow> real" where
  "spec_dip_band_q i q = min (q * 0.8) (q_ceiling i)"

subsection \<open>The selection between peak and dip\<close>

text \<open>
  The comparison of line 493 for bands 3 to 6, with the weighting of lines 479-491: whether
  the peak at \<open>peak_idx\<close> counts as more significant than the dip at \<open>dip_idx\<close>. The same
  lines are part of \<^const>\<open>upper_band\<close>; they are repeated here on their own so that a
  statement can name the branch that was taken.
\<close>

definition peak_more_significant :: "nat \<Rightarrow> real list \<Rightarrow> nat \<Rightarrow> nat \<Rightarrow> bool" where
  "peak_more_significant i range_spectrum peak_idx dip_idx =
     (let band_avg = np_mean range_spectrum;
          peak_val = range_spectrum ! peak_idx;
          dip_val = range_spectrum ! dip_idx;
          peak_significance = peak_val - band_avg;
          dip_significance = band_avg - dip_val;
          dip_significance = (if i = 3 then dip_significance * 1.15 else dip_significance);
          peak_significance =
            (if i = 3 then peak_significance
             else if i = 4 then peak_significance * 1.1
             else if i \<ge> 5 then peak_significance * 1.2
             else peak_significance)
      in peak_significance > dip_significance)"

text \<open>
  The factors lines 528-538 multiply the gain of bands 3 to 6 by (0.9 for Mids, 0.85 for
  High Mids, 0.8 for Presence and Air), as a table.
\<close>

definition upper_gain_scale :: "nat \<Rightarrow> real" where
  "upper_gain_scale i = [0.9, 0.85, 0.8, 0.8] ! (i - 3)"

subsection \<open>What the band loop stores\<close>

text \<open>
  The state of band \<open>i\<close> in the dictionary after its iteration: the three entries are the
  normalised forms of a frequency, of a gain in [-12, 6] and of a Q in [0.5, 2.0].
\<close>

definition band_stored :: "preset_data \<Rightarrow> nat \<Rightarrow> bool" where
  "band_stored pd i \<longleftrightarrow>
     (\<exists>fr g q. pd (Frequency i) = Some (normalize_frequency fr)
        \<and> pd (Gain i) = Some (normalize_gain g) \<and> - 12 \<le> g \<and> g \<le> 6
        \<and> pd (Q i) = Some (normalize_q q) \<and> 0.5 \<le> q \<and> q \<le> 2)"

subsection \<open>An example input\<close>

text \<open>
  Twelve bins 200 Hz apart (the grid of a signal sampled at 4400 Hz) and a spectrum over
  them, used to run the definitions: the three reference bands are not empty, bands 0 to 3
  have samples and bands 4 to 6 take the fallback.
\<close>

definition example_freqs :: "real list" where
  "example_freqs = [0, 200, 400, 600, 800, 1000, 1200, 1400, 1600, 1800, 2000, 2200]"

definition example_spectrum :: "real list" where
  "example_spectrum = [- 40, - 30, - 20, - 22, - 14, - 10, - 17, - 14, - 16, - 18, - 20, - 35]"

subsection \<open>An example dictionary for the final pass\<close>

text \<open>
  Seven normalised Q values whose actual values are 10 (band 0) and 1 (bands 1 to 6): a
  dictionary on which the final pass rescales.
\<close>

definition wide_q :: "nat \<Rightarrow> real" where
  "wide_q i = (if i = 0 then 1 else 1 / 2)"

definition wide_preset_data :: preset_data where
  "wide_preset_data = (\<lambda>k. case k of Q i \<Rightarrow> Some (wide_q i) | _ \<Rightarrow> None)"

section \<open>Properties of the normalisation maps\<close>

lemma log10_tenth: "log 10 (0.1::real) = - 1"
  using log_recip [of 10 "10::real"] by simp

lemma q_span: "log 10 (10::real) - log 10 0.1 = 2"
  by (simp add: log10_tenth)

lemma freq_span: "log 10 (20000::real) - log 10 20 = 3"
proof -
  have "log 10 (20000::real) = log 10 (1000 * 20)" by simp
  also have "\<dots> = log 10 1000 + log 10 20" by (rule log_mult_pos) simp_all
  also have "log 10 (1000::real) = log 10 (10 powr 3)" by simp
  also have "\<dots> = 3" by (rule log_powr_cancel) simp_all
  finally show ?thesis by simp
qed

lemma normalize_q_unclamped:
  assumes "0.1 \<le> q" "q \<le> 10"
  shows "normalize_q q = (log 10 q + 1) / 2"
proof -
  have "log 10 0.1 \<le> log 10 q" using assms by (subst log_le_cancel_iff) simp_all
  moreover have "log 10 q \<le> log 10 10" using assms by (subst log_le_cancel_iff) simp_all
  ultimately have "- 1 \<le> log 10 q" "log 10 q \<le> 1" by (simp_all add: log10_tenth)
  then show ?thesis by (simp add: normalize_q_def log10_tenth)
qed

lemma denormalize_q_eq: "denormalize_q n = 0.1 * 10 powr (2 * n)"
  by (simp add: denormalize_q_def log10_tenth mult.commute)

lemma denormalize_normalize_q:
  assumes "0.1 \<le> q" "q \<le> 10"
  shows "denormalize_q (normalize_q q) = q"
proof -
  have pos: "0 < q" using assms by simp
  have "2 * normalize_q q = log 10 q + 1"
    by (simp add: normalize_q_unclamped [OF assms])
  then have "denormalize_q (normalize_q q) = 0.1 * 10 powr (log 10 q + 1)"
    by (simp only: denormalize_q_eq)
  also have "\<dots> = 0.1 * (10 powr log 10 q * 10 powr 1)" by (simp only: powr_add)
  also have "\<dots> = q" using pos by simp
  finally show ?thesis .
qed

lemma normalize_frequency_unclamped:
  assumes "20 \<le> f" "f \<le> 20000"
  shows "normalize_frequency f = (log 10 f - log 10 20) / 3"
proof -
  have "log 10 20 \<le> log 10 f" using assms by (subst log_le_cancel_iff) simp_all
  moreover have "log 10 f \<le> log 10 20000" using assms by (subst log_le_cancel_iff) simp_all
  ultimately have "0 \<le> log 10 f - log 10 20" "log 10 f - log 10 20 \<le> 3"
    using freq_span by simp_all
  then show ?thesis by (simp add: normalize_frequency_def freq_span)
qed



section \<open>The gain map in double arithmetic\<close>

lemma round_double_binade:
  assumes "2 powr of_int e \<le> \<bar>x\<bar>" "\<bar>x\<bar> < 2 powr (of_int e + 1)" "- 1022 \<le> e"
  shows "round_double x
    = of_int (round_half_even (x / 2 powr (of_int e - 52))) * 2 powr (of_int e - 52)"
proof -
  have pos: "0 < \<bar>x\<bar>" using assms(1) by (smt (verit) powr_gt_zero)
  then have "\<lfloor>log 2 \<bar>x\<bar>\<rfloor> = e"
    using assms(1,2) by (subst floor_log_eq_powr_iff) simp_all
  with pos assms(3) show ?thesis by (simp add: round_double_def Let_def max_def)
qed

lemma round_half_even_int [simp]: "round_half_even (of_int k) = k"
  by (simp add: round_half_even_def)

lemma round_double_grid:
  assumes "2 powr of_int e \<le> \<bar>x\<bar>" "\<bar>x\<bar> < 2 powr (of_int e + 1)" "- 1022 \<le> e"
    and "2 powr (of_int e - 52) = u" "x / u = of_int k + d" "0 \<le> d" "d < 1 / 2"
  shows "round_double x = of_int k * u"
proof -
  have "\<lfloor>of_int k + d\<rfloor> = k" using assms(6,7) by (simp add: floor_unique)
  then have "round_half_even (x / u) = k"
    using assms(5,7) by (simp add: round_half_even_def)
  with round_double_binade [OF assms(1-3)] assms(4) show ?thesis by simp
qed

lemma rd24: "round_double 24 = 24"
proof -
  have "round_double 24 = of_int (24 * 2 ^ 48) * (1 / 2 ^ 48)"
    by (rule round_double_grid [where e = 4 and d = 0]) (simp_all add: powr_minus_divide)
  then show ?thesis by simp
qed

lemma rd48: "round_double 48 = 48"
proof -
  have "round_double 48 = of_int (48 * 2 ^ 47) * (1 / 2 ^ 47)"
    by (rule round_double_grid [where e = 5 and d = 0]) (simp_all add: powr_minus_divide)
  then show ?thesis by simp
qed

lemma rd_half: "round_double (1 / 2) = 1 / 2"
proof -
  have "round_double (1 / 2) = of_int (2 ^ 52) * (1 / 2 ^ 53)"
    by (rule round_double_grid [where e = "- 1" and d = 0])
       (simp_all add: powr_minus_divide)
  then show ?thesis by simp
qed

lemma rd24_tiny: "round_double (1 / 2 ^ 70 + 24) = 24"
proof -
  have "round_double (1 / 2 ^ 70 + 24) = of_int (24 * 2 ^ 48) * (1 / 2 ^ 48)"
    by (rule round_double_grid [where e = 4 and d = "1 / 2 ^ 22"]) (simp_all add: powr_minus_divide)
  then show ?thesis by simp
qed

lemma gain_double_zero: "normalize_gain_double 0 = 1 / 2"
  by (simp add: normalize_gain_double_def rd24 rd48 rd_half)

lemma gain_double_tiny: "normalize_gain_double (1 / 2 ^ 70) = 1 / 2"
  using rd24_tiny by (simp add: normalize_gain_double_def rd48 rd_half)

lemma round_half_even_bounds: "\<lfloor>r\<rfloor> \<le> round_half_even r" "round_half_even r \<le> \<lceil>r\<rceil>"
proof -
  show "\<lfloor>r\<rfloor> \<le> round_half_even r" by (simp add: round_half_even_def Let_def)
  have "\<lfloor>r\<rfloor> + 1 = \<lceil>r\<rceil>" if "r \<noteq> of_int \<lfloor>r\<rfloor>"
    using that by (metis ceiling_altdef)
  moreover have "round_half_even r = \<lfloor>r\<rfloor>" if "r = of_int \<lfloor>r\<rfloor>"
    using that by (metis round_half_even_int)
  moreover have "\<lfloor>r\<rfloor> \<le> \<lceil>r\<rceil>" by (rule floor_le_ceiling)
  moreover have "round_half_even r \<le> \<lfloor>r\<rfloor> + 1" by (simp add: round_half_even_def Let_def)
  ultimately show "round_half_even r \<le> \<lceil>r\<rceil>" by (cases "r = of_int \<lfloor>r\<rfloor>") auto
qed

lemma round_half_even_mono:
  assumes "r \<le> s"
  shows "round_half_even r \<le> round_half_even s"
proof (cases "\<lfloor>r\<rfloor> = \<lfloor>s\<rfloor>")
  case True
  with assms show ?thesis by (simp add: round_half_even_def Let_def)
next
  case False
  with assms have "\<lfloor>r\<rfloor> < \<lfloor>s\<rfloor>" by (simp add: floor_mono order.strict_iff_order)
  moreover have "round_half_even r \<le> \<lfloor>r\<rfloor> + 1" by (simp add: round_half_even_def Let_def)
  ultimately show ?thesis using round_half_even_bounds(1) [of s] by linarith
qed

lemma round_double_nonneg: "0 \<le> x \<Longrightarrow> 0 \<le> round_double x"
proof -
  assume x: "0 \<le> x"
  have "0 \<le> round_half_even (x / u)" if "0 < u" for u :: real
    using round_half_even_bounds(1) [of "x / u"] x that
    by (smt (verit) divide_nonneg_pos zero_le_floor)
  then show ?thesis by (simp add: round_double_def Let_def)
qed

lemma round_double_mono:
  assumes "0 \<le> x" "x \<le> y"
  shows "round_double x \<le> round_double y"
proof (cases "x = 0")
  case True
  with assms round_double_nonneg [of y] show ?thesis by (simp add: round_double_def)
next
  case False
  with assms have x: "0 < x" and y: "0 < y" by simp_all
  define ex where "ex = max \<lfloor>log 2 x\<rfloor> (- 1022)"
  define ey where "ey = max \<lfloor>log 2 y\<rfloor> (- 1022)"
  define ux :: real where "ux = 2 powr (of_int ex - 52)"
  define uy :: real where "uy = 2 powr (of_int ey - 52)"
  have rx: "round_double x = of_int (round_half_even (x / ux)) * ux"
    using x by (simp add: round_double_def Let_def ex_def ux_def)
  have ry: "round_double y = of_int (round_half_even (y / uy)) * uy"
    using y by (simp add: round_double_def Let_def ey_def uy_def)
  have ux: "0 < ux" and uy: "0 < uy" by (simp_all add: ux_def uy_def)
  have "log 2 x \<le> log 2 y" using x y assms(2) by simp
  then have exy: "ex \<le> ey" unfolding ex_def ey_def by (intro max.mono floor_mono) simp_all
  show ?thesis
  proof (cases "ex = ey")
    case True
    then have "ux = uy" by (simp add: ux_def uy_def)
    moreover have "x / uy \<le> y / uy" using assms(2) uy by (simp add: divide_right_mono)
    ultimately show ?thesis
      using round_half_even_mono [of "x / uy" "y / uy"] uy unfolding rx ry
      by (simp add: mult_right_mono)
  next
    case False
    with exy have lt: "ex + 1 \<le> ey" by simp
    then have "ey = \<lfloor>log 2 y\<rfloor>" unfolding ey_def ex_def by linarith
    then have "of_int ey \<le> log 2 y" by simp
    then have ylow: "2 powr of_int ey \<le> y" using y by (simp add: le_log_iff)
    have "2 powr of_int ey = 2 powr 52 * uy"
      unfolding uy_def powr_add [symmetric] by simp
    with ylow uy have "2 powr 52 \<le> y / uy" by (simp add: field_simps)
    then have "2 ^ 52 \<le> y / uy" by simp
    then have "(2 ^ 52 :: int) \<le> \<lfloor>y / uy\<rfloor>" by (simp add: le_floor_iff)
    with round_half_even_bounds(1) [of "y / uy"]
    have "(2 ^ 52 :: int) \<le> round_half_even (y / uy)" by linarith
    then have "(2 ^ 52 :: real) \<le> of_int (round_half_even (y / uy))"
      by (metis of_int_le_iff of_int_numeral of_int_power)
    then have "2 ^ 52 * uy \<le> round_double y" using uy unfolding ry by (simp add: mult_right_mono)
    then have low: "2 powr of_int ey \<le> round_double y"
      using \<open>2 powr of_int ey = 2 powr 52 * uy\<close> by simp
    have "\<lfloor>log 2 x\<rfloor> \<le> ex" by (simp add: ex_def)
    then have "log 2 x < of_int ex + 1" by linarith
    then have xup: "x < 2 powr (of_int ex + 1)" using x by (simp add: log_less_iff)
    have e1: "2 powr (of_int ex + 1) = 2 powr 53 * ux"
      unfolding ux_def powr_add [symmetric] by (simp add: add.commute)
    with xup ux have "x / ux < 2 powr 53" by (simp add: field_simps)
    then have "x / ux \<le> of_int (2 ^ 53)" by simp
    then have "\<lceil>x / ux\<rceil> \<le> 2 ^ 53" by (simp only: ceiling_le_iff)
    with round_half_even_bounds(2) [of "x / ux"]
    have "round_half_even (x / ux) \<le> 2 ^ 53" by linarith
    then have "of_int (round_half_even (x / ux)) \<le> (2 ^ 53 :: real)"
      by (metis of_int_le_iff of_int_numeral of_int_power)
    then have "round_double x \<le> 2 ^ 53 * ux" using ux unfolding rx by (simp add: mult_right_mono)
    then have up: "round_double x \<le> 2 powr (of_int ex + 1)" using e1 by simp
    have "real_of_int ex + 1 \<le> real_of_int ey" using lt by linarith
    then have "(2::real) powr (of_int ex + 1) \<le> 2 powr of_int ey"
      by (intro powr_mono) simp_all
    with up low show ?thesis by linarith
  qed
qed

lemma normalize_gain_double_mono:
  assumes "- 24 \<le> g1" "g1 \<le> g2"
  shows "normalize_gain_double g1 \<le> normalize_gain_double g2"
proof -
  have a: "round_double (g1 + 24) \<le> round_double (g2 + 24)"
    using assms by (intro round_double_mono) simp_all
  have n: "0 \<le> round_double (g1 + 24)" using assms by (intro round_double_nonneg) simp
  have "round_double (round_double (g1 + 24) / 48) \<le> round_double (round_double (g2 + 24) / 48)"
    using a n by (intro round_double_mono) simp_all
  moreover have "max 0 (min 1 a) \<le> max 0 (min 1 b)" if "a \<le> b" for a b :: real
    using that by auto
  ultimately show ?thesis
    by (simp add: normalize_gain_double_def rd48 Let_def)
qed

section \<open>Round trip and monotonicity\<close>




lemma normalize_strict_mono_real:
  assumes "f1 < f2" "g1 < g2" "q1 < q2"
    and "20 < f1" "f2 < 20000" "- 24 \<le> g1" "g2 \<le> 24" "0.1 \<le> q1" "q2 \<le> 10"
  shows "normalize_frequency f1 < normalize_frequency f2
       \<and> normalize_gain g1 < normalize_gain g2
       \<and> normalize_q q1 < normalize_q q2"
proof -
  have "log 10 f1 < log 10 f2" using assms by (subst log_less_cancel_iff) simp_all
  moreover have "normalize_frequency f1 = (log 10 f1 - log 10 20) / 3"
    using assms by (intro normalize_frequency_unclamped) simp_all
  moreover have "normalize_frequency f2 = (log 10 f2 - log 10 20) / 3"
    using assms by (intro normalize_frequency_unclamped) simp_all
  ultimately have F: "normalize_frequency f1 < normalize_frequency f2" by simp
  have "normalize_gain g1 = (g1 + 24) / 48" "normalize_gain g2 = (g2 + 24) / 48"
    using assms by (simp_all add: normalize_gain_def)
  then have G: "normalize_gain g1 < normalize_gain g2" using assms by simp
  have "log 10 q1 < log 10 q2" using assms by (subst log_less_cancel_iff) simp_all
  moreover have "normalize_q q1 = (log 10 q1 + 1) / 2"
    using assms by (intro normalize_q_unclamped) simp_all
  moreover have "normalize_q q2 = (log 10 q2 + 1) / 2"
    using assms by (intro normalize_q_unclamped) simp_all
  ultimately have Q: "normalize_q q1 < normalize_q q2" by simp
  from F G Q show ?thesis by simp
qed


text \<open>
  Claim C8, as the code has it. In exact real arithmetic, that is up to floating-point
  rounding, \<^const>\<open>normalize_frequency\<close> is strictly increasing on the open interval
  (20, 20000), \<^const>\<open>normalize_gain\<close> on [-24, 24] and \<^const>\<open>normalize_q\<close> on [0.1, 10].
  As doubles compute it, the gain map is still non-decreasing on [-24, 24].
\<close>

theorem normalize_increasing_up_to_rounding:
  assumes "f1 < f2" "g1 < g2" "q1 < q2"
    and "20 < f1" "f2 < 20000" "- 24 \<le> g1" "g2 \<le> 24" "0.1 \<le> q1" "q2 \<le> 10"
  shows "normalize_frequency f1 < normalize_frequency f2
       \<and> normalize_gain g1 < normalize_gain g2
       \<and> normalize_q q1 < normalize_q q2
       \<and> normalize_gain_double g1 \<le> normalize_gain_double g2"
  using normalize_strict_mono_real [OF assms] normalize_gain_double_mono [of g1 g2] assms
  by simp

theorem normalize_increasing_up_to_rounding_witness:
  "normalize_frequency 100 < normalize_frequency 1000
   \<and> normalize_gain (- 24) < normalize_gain 24
   \<and> normalize_q 0.1 < normalize_q 10
   \<and> normalize_gain_double (- 24) \<le> normalize_gain_double 24"
  using normalize_increasing_up_to_rounding [of 100 1000 "- 24" 24 "0.1" 10] by simp

text \<open>
  The claim as stated fails in double arithmetic: the gains 0.0 and 2 to the -70 lie in
  [-24, 24], the first is below the second, and both normalise to 0.5.
\<close>

theorem gain_double_plateau_counterexample:
  "(0::real) < 1 / 2 ^ 70 \<and> - 24 \<le> (0::real) \<and> (1 / 2 ^ 70 :: real) \<le> 24
   \<and> \<not> normalize_gain_double 0 < normalize_gain_double (1 / 2 ^ 70)"
  unfolding gain_double_zero gain_double_tiny by simp

section \<open>Bandwidth-derived Q: the edge cases\<close>

declare upper_walk.simps [simp del]

lemma ebind_simps [simp]: "ebind (Inr v) f = f v" "ebind (Inl e) f = Inl e"
  by (simp_all add: ebind_def)

lemma lower_walk_le: "lower_walk s h p \<le> p"
  by (induction p) auto

lemma lower_walk_less: "0 < p \<Longrightarrow> s ! p > h \<Longrightarrow> lower_walk s h p < p"
  using lower_walk_le [of s h "p - 1"] by (cases p) (auto simp: less_Suc_eq_le)

lemma upper_walk_ge: "p \<le> upper_walk s h p"
proof (induction s h p rule: upper_walk.induct)
  case (1 s h p)
  show ?case
  proof (cases "int p < int (length s) - 1 \<and> s ! p > h")
    case True
    with 1 have "p + 1 \<le> upper_walk s h (p + 1)" by simp
    with True show ?thesis by (subst upper_walk.simps) simp
  next
    case False
    then show ?thesis by (subst upper_walk.simps) auto
  qed
qed

lemma upper_walk_less_length: "p < length s \<Longrightarrow> upper_walk s h p < length s"
proof (induction s h p rule: upper_walk.induct)
  case (1 s h p)
  show ?case
  proof (cases "int p < int (length s) - 1 \<and> s ! p > h")
    case True
    then have "p + 1 < length s" by linarith
    with 1 True show ?thesis by (subst upper_walk.simps) simp
  next
    case False
    with 1 show ?thesis by (subst upper_walk.simps) auto
  qed
qed

lemma upper_walk_greater:
  "int p < int (length s) - 1 \<Longrightarrow> s ! p > h \<Longrightarrow> p < upper_walk s h p"
  using upper_walk_ge [of "p + 1" s h] by (subst upper_walk.simps) simp

text \<open>
  Claim C4, as the code has it. When the extremum is at the slice boundary, or when the
  measured bandwidth is zero or negative, \<^const>\<open>calculate_q_from_spectrum\<close> returns the flat
  default 1.0 (lines 80-81 and 114-115). The frequency-tiered default (0.7, 1.0, 1.2, 1.5) is
  returned when the two walks give no usable pair of crossing points: the upper index is not
  above the lower one, or lies outside \<^verbatim>\<open>freqs\<close> (lines 99-109).
\<close>

theorem calculate_q_edge_cases:
  fixes spectrum freqs :: "real list" and peak_idx :: nat
  defines "lo \<equiv> lower_walk spectrum (spectrum ! peak_idx - 3) peak_idx"
      and "up \<equiv> upper_walk spectrum (spectrum ! peak_idx - 3) peak_idx"
  shows "(peak_idx = 0 \<or> length spectrum \<le> peak_idx + 1 \<longrightarrow>
            calculate_q_from_spectrum spectrum peak_idx freqs = Inr 1)
       \<and> (0 < peak_idx \<and> peak_idx + 1 < length spectrum \<and> peak_idx < length freqs
            \<and> (up \<le> lo \<or> length freqs \<le> up) \<longrightarrow>
            calculate_q_from_spectrum spectrum peak_idx freqs
              = Inr (tiered_default_q (freqs ! peak_idx)))
       \<and> (0 < peak_idx \<and> peak_idx + 1 < length spectrum \<and> lo < up \<and> up < length freqs
            \<and> freqs ! up - freqs ! lo \<le> 0 \<longrightarrow>
            calculate_q_from_spectrum spectrum peak_idx freqs = Inr 1)"
proof (intro conjI impI)
  assume "peak_idx = 0 \<or> length spectrum \<le> peak_idx + 1"
  then have "peak_idx \<le> 0 \<or> int peak_idx \<ge> int (length spectrum) - 1" by linarith
  then show "calculate_q_from_spectrum spectrum peak_idx freqs = Inr 1"
    by (simp add: calculate_q_from_spectrum_def)
next
  assume a: "0 < peak_idx \<and> peak_idx + 1 < length spectrum \<and> peak_idx < length freqs
    \<and> (up \<le> lo \<or> length freqs \<le> up)"
  then have "\<not> (peak_idx \<le> 0 \<or> int peak_idx \<ge> int (length spectrum) - 1)" by linarith
  with a show "calculate_q_from_spectrum spectrum peak_idx freqs
      = Inr (tiered_default_q (freqs ! peak_idx))"
    unfolding calculate_q_from_spectrum_def lo_def up_def
    by (simp add: Let_def index_def)
next
  assume a: "0 < peak_idx \<and> peak_idx + 1 < length spectrum \<and> lo < up \<and> up < length freqs
    \<and> freqs ! up - freqs ! lo \<le> 0"
  then have interior: "\<not> (peak_idx \<le> 0 \<or> int peak_idx \<ge> int (length spectrum) - 1)"
    by linarith
  have "peak_idx \<le> up" unfolding up_def by (rule upper_walk_ge)
  with a have "peak_idx < length freqs" "lo < length freqs" by simp_all
  with a interior show "calculate_q_from_spectrum spectrum peak_idx freqs = Inr 1"
    unfolding calculate_q_from_spectrum_def lo_def up_def
    by (simp add: Let_def index_def)
qed

theorem calculate_q_edge_cases_witness:
  "calculate_q_from_spectrum [5, 1, 0] 0 [50, 60, 70] = Inr 1
   \<and> calculate_q_from_spectrum [0, 5, 0, 0] 1 [50, 60] = Inr (tiered_default_q 60)
   \<and> calculate_q_from_spectrum [0, 5, 0] 1 [50, 50, 50] = Inr 1"
proof -
  have w: "lower_walk [0, 5, 0, 0] (5 - 3) 1 = 0" "upper_walk [0, 5, 0, 0] (5 - 3) 1 = 2"
    "lower_walk [0, 5, 0] (5 - 3) 1 = 0" "upper_walk [0, 5, 0] (5 - 3) 1 = 2"
    by (simp_all add: upper_walk.simps)
  have "calculate_q_from_spectrum [5, 1, 0] 0 [50, 60, 70] = Inr 1"
    using calculate_q_edge_cases [of 0 "[5, 1, 0]" "[50, 60, 70]"] by simp
  moreover have "calculate_q_from_spectrum [0, 5, 0, 0] 1 [50, 60] = Inr (tiered_default_q 60)"
    using calculate_q_edge_cases [of 1 "[0, 5, 0, 0]" "[50, 60]"] w by simp
  moreover have "calculate_q_from_spectrum [0, 5, 0] 1 [50, 50, 50] = Inr 1"
    using calculate_q_edge_cases [of 1 "[0, 5, 0]" "[50, 50, 50]"] w by simp
  ultimately show ?thesis by simp
qed

text \<open>
  The claim as stated fails: an extremum at the first bin of a slice whose centre frequency
  is 50 Hz gets Q = 1.0, while the tiered default below 100 Hz is 0.7.
\<close>

theorem calculate_q_boundary_counterexample:
  "calculate_q_from_spectrum [5, 1, 0] 0 [50, 60, 70] \<noteq> Inr (tiered_default_q ([50, 60, 70] ! 0))"
  by (simp add: calculate_q_from_spectrum_def tiered_default_q_def)


section \<open>Reference level\<close>

lemma reference_level_three_bands:
  assumes "ref_levels_loop spectrum freqs [(400, 600), (800, 1200), (2000, 3000)] [] = Inr [a, b, c]"
  shows "calculate_reference_level spectrum freqs = Inr (0.25 * a + 0.5 * b + 0.25 * c)"
  using assms by (simp add: calculate_reference_level_def np_average_def)

lemma reference_level_no_band:
  assumes "ref_levels_loop spectrum freqs [(400, 600), (800, 1200), (2000, 3000)] [] = Inr []"
  shows "calculate_reference_level spectrum freqs = Inr 0"
  using assms by (simp add: calculate_reference_level_def)

lemma reference_level_some_bands:
  assumes "ref_levels_loop spectrum freqs [(400, 600), (800, 1200), (2000, 3000)] [] = Inr ls"
    and "ls \<noteq> []" "length ls \<noteq> 3"
  shows "calculate_reference_level spectrum freqs = Inl TypeError"
  using assms by (simp add: calculate_reference_level_def np_average_def)

text \<open>
  Claim C5 at a failing input. The bins of a signal sampled at 4000 Hz (here 9 bins, 250 Hz
  apart, up to 2000 Hz): the bands 400-600 Hz and 2000-3000 Hz each fall on a single bin and
  are skipped, the band 800-1200 Hz gives one median, and \<^verbatim>\<open>np.average\<close> of one level
  with three weights raises TypeError instead of returning a reference level.
\<close>

theorem reference_level_partial_bands_fails:
  "calculate_reference_level [- 30, - 20, - 10, - 12, - 14, - 16, - 18, - 20, - 22]
     [0, 250, 500, 750, 1000, 1250, 1500, 1750, 2000] = Inl TypeError"
  by (simp add: calculate_reference_level_def nearest_idx_def np_argmin_def slice_def
      np_average_def)

section \<open>Transient analysis\<close>

text \<open>
  A signal at least as long as the smoothing window \<open>w\<close>, when \<open>w\<close> exceeds the polynomial
  order 3 (a sample rate of 400 Hz or more), gets a density and the factor that belongs to
  it.
\<close>

lemma analyze_transients_Inr:
  fixes sr :: nat
  defines "w \<equiv> (if sr div 100 mod 2 = 0 then sr div 100 + 1 else sr div 100)"
  assumes "3 < w" "w \<le> length y"
  shows "\<exists>density. analyze_transients fit find_peaks y sr
           = Inr (density, if density > 10 then 1.3 else if density > 5 then 1.1 else 0.9)"
proof -
  have y: "0 < length y" using assms(2,3) by linarith
  have sr: "sr \<noteq> 0"
  proof
    assume "sr = 0"
    then have "w = 1" by (simp add: w_def)
    with assms(2) show False by simp
  qed
  have sg: "savgol_filter fit (map abs y) w 3 = Inr (fit (map abs y) w 3)"
    using assms(2,3) by (simp add: savgol_filter_def)
  show ?thesis
    unfolding analyze_transients_def Let_def w_def [symmetric] sg
    using y sr by simp
qed

text \<open>
  Claim C3 at a failing input. On the empty signal the smoothing window (at least one
  sample long) is longer than the envelope, so \<^verbatim>\<open>savgol_filter\<close> raises ValueError before
  line 320 is reached, whatever the sample rate: no density is returned, and
  \<^verbatim>\<open>analyze_audio\<close> ends in its \<^verbatim>\<open>except\<close> branch without a preset.
\<close>

theorem analyze_transients_empty_fails:
  "analyze_transients fit find_peaks [] sr = Inl ValueError"
  by (simp add: analyze_transients_def savgol_filter_def Let_def)

section \<open>The Q caps of the upper bands\<close>

lemma ebind_eq_Inr: "ebind m f = Inr r \<longleftrightarrow> (\<exists>v. m = Inr v \<and> f v = Inr r)"
  by (cases m) simp_all

lemma band_q_tables:
  assumes "3 \<le> i" "i \<le> 6"
  shows "peak_band_q i q0 = min (q0 * peak_scale i) (q_ceiling i)"
    and "dip_band_q i q0 = min (q0 * 0.8) (dip_ceiling i)"
    and "dip_ceiling i \<le> q_ceiling i"
proof -
  from assms have "i = 3 \<or> i = 4 \<or> i = 5 \<or> i = 6" by auto
  then show "peak_band_q i q0 = min (q0 * peak_scale i) (q_ceiling i)"
    "dip_band_q i q0 = min (q0 * 0.8) (dip_ceiling i)"
    "dip_ceiling i \<le> q_ceiling i"
    by (auto simp: peak_band_q_def dip_band_q_def peak_scale_def q_ceiling_def dip_ceiling_def)
qed

lemma high_mids_dip_q:
  "calculate_q_from_spectrum [0, - 10, 0] 1 [2600, 2700, 2800] = Inr 4"
  by (simp add: calculate_q_from_spectrum_def upper_walk.simps index_def musical_scale_def
      Let_def)

lemma high_mids_dip_band:
  "upper_band 4 [0, - 10, 0] [2600, 2700, 2800] 0 = Inr (2700, - 8.5, 1.7)"
  using high_mids_dip_q
  by (simp add: upper_band_def np_argmax_def np_argmin_def index_def np_mean_def
      dip_band_q_def Let_def)

lemma upper_band_selected:
  assumes "upper_band i rs fa ref = Inr (freq, gain, q)"
  shows "\<exists>peak_idx dip_idx q0.
           np_argmax rs = Inr peak_idx \<and> np_argmin rs = Inr dip_idx
           \<and> (if peak_more_significant i rs peak_idx dip_idx
                then index fa peak_idx = Inr freq
                   \<and> gain = (if i = 3 then (if i \<ge> 5 then (rs ! peak_idx - ref) * 0.8 else rs ! peak_idx - ref) * 0.9
                             else if i = 4 then (if i \<ge> 5 then (rs ! peak_idx - ref) * 0.8 else rs ! peak_idx - ref) * 0.85
                             else (if i \<ge> 5 then (rs ! peak_idx - ref) * 0.8 else rs ! peak_idx - ref))
                   \<and> calculate_q_from_spectrum rs peak_idx fa = Inr q0
                   \<and> q = peak_band_q i q0
                else index fa dip_idx = Inr freq
                   \<and> gain = (if i = 3 then (if i \<ge> 5 then (rs ! dip_idx - ref) * 0.8 else rs ! dip_idx - ref) * 0.9
                             else if i = 4 then (if i \<ge> 5 then (rs ! dip_idx - ref) * 0.8 else rs ! dip_idx - ref) * 0.85
                             else (if i \<ge> 5 then (rs ! dip_idx - ref) * 0.8 else rs ! dip_idx - ref))
                   \<and> calculate_q_from_spectrum rs dip_idx fa = Inr q0
                   \<and> q = dip_band_q i q0)"
proof -
  from assms obtain peak_idx dip_idx peak_val dip_val where
    p: "np_argmax rs = Inr peak_idx" and d: "np_argmin rs = Inr dip_idx"
    and pv: "index rs peak_idx = Inr peak_val" and dv: "index rs dip_idx = Inr dip_val"
    unfolding upper_band_def Let_def by (auto simp: ebind_eq_Inr)
  from pv dv have v: "peak_val = rs ! peak_idx" "dip_val = rs ! dip_idx"
    by (auto simp: index_def split: if_splits)
  show ?thesis
  proof (cases "peak_more_significant i rs peak_idx dip_idx")
    case True
    with assms p d pv dv v obtain q0 where
      "index fa peak_idx = Inr freq" "calculate_q_from_spectrum rs peak_idx fa = Inr q0"
      "q = peak_band_q i q0"
      "gain = (if i = 3 then (if i \<ge> 5 then (rs ! peak_idx - ref) * 0.8 else rs ! peak_idx - ref) * 0.9
                             else if i = 4 then (if i \<ge> 5 then (rs ! peak_idx - ref) * 0.8 else rs ! peak_idx - ref) * 0.85
                             else (if i \<ge> 5 then (rs ! peak_idx - ref) * 0.8 else rs ! peak_idx - ref))"
      unfolding upper_band_def peak_more_significant_def Let_def
      by (auto simp: ebind_eq_Inr split: if_splits)
    with True p d show ?thesis by auto
  next
    case False
    with assms p d pv dv v obtain q0 where
      "index fa dip_idx = Inr freq" "calculate_q_from_spectrum rs dip_idx fa = Inr q0"
      "q = dip_band_q i q0"
      "gain = (if i = 3 then (if i \<ge> 5 then (rs ! dip_idx - ref) * 0.8 else rs ! dip_idx - ref) * 0.9
                             else if i = 4 then (if i \<ge> 5 then (rs ! dip_idx - ref) * 0.8 else rs ! dip_idx - ref) * 0.85
                             else (if i \<ge> 5 then (rs ! dip_idx - ref) * 0.8 else rs ! dip_idx - ref))"
      unfolding upper_band_def peak_more_significant_def Let_def
      by (auto simp: ebind_eq_Inr split: if_splits)
    with False p d show ?thesis by auto
  qed
qed

lemma upper_gain_table:
  assumes "3 \<le> i" "i \<le> 6"
  shows "(if i = 3 then (if i \<ge> 5 then g * 0.8 else g) * 0.9
          else if i = 4 then (if i \<ge> 5 then g * 0.8 else g) * 0.85
          else (if i \<ge> 5 then g * 0.8 else g)) = g * upper_gain_scale i"
proof -
  from assms have "i = 3 \<or> i = 4 \<or> i = 5 \<or> i = 6" by auto
  then show ?thesis by (auto simp: upper_gain_scale_def)
qed

lemma mids_peak_q:
  "calculate_q_from_spectrum [- 14, - 10, - 17, - 14, - 16, - 18, - 20] 1
     [800, 1000, 1200, 1400, 1600, 1800, 2000] = Inr 2"
  by (simp add: calculate_q_from_spectrum_def upper_walk.simps index_def musical_scale_def
      Let_def)

lemma mids_peak_band:
  "upper_band 3 [- 14, - 10, - 17, - 14, - 16, - 18, - 20]
     [800, 1000, 1200, 1400, 1600, 1800, 2000] (- 16) = Inr (1000, 5.4, 1.8)"
  using mids_peak_q
  by (simp add: upper_band_def np_argmax_def np_argmin_def index_def np_mean_def
      peak_band_q_def Let_def)

text \<open>
  Claim C6, as the code has it. For a band i of the upper group (3 to 6), the result of
  \<^const>\<open>upper_band\<close> follows the significance comparison. When the peak is the more
  significant, the frequency is the one at the peak, and Q is the bandwidth-derived Q at the
  peak, multiplied by 0.9 / 0.95 / 1.0 / 0.8 and capped at the band's ceiling
  1.8 / 2.0 / 2.5 / 1.5. Otherwise the frequency is the one at the dip, and Q is the
  bandwidth-derived Q at the dip, widened by 0.8 and capped at the dip ceiling
  1.5 / 1.7 / 2.0 / 1.2. Either way Q is at most the band's ceiling. (The adjustments of
  lines 540-553 come after it.)
\<close>

theorem upper_band_q_by_selection:
  assumes "upper_band i range_spectrum freq_array reference_level = Inr (freq, gain, q)"
    and "3 \<le> i" "i \<le> 6"
  shows "\<exists>peak_idx dip_idx q0.
           np_argmax range_spectrum = Inr peak_idx \<and> np_argmin range_spectrum = Inr dip_idx
           \<and> (if peak_more_significant i range_spectrum peak_idx dip_idx
                then index freq_array peak_idx = Inr freq
                   \<and> gain = (range_spectrum ! peak_idx - reference_level) * upper_gain_scale i
                   \<and> calculate_q_from_spectrum range_spectrum peak_idx freq_array = Inr q0
                   \<and> q = min (q0 * peak_scale i) (q_ceiling i)
                else index freq_array dip_idx = Inr freq
                   \<and> gain = (range_spectrum ! dip_idx - reference_level) * upper_gain_scale i
                   \<and> calculate_q_from_spectrum range_spectrum dip_idx freq_array = Inr q0
                   \<and> q = min (q0 * 0.8) (dip_ceiling i))
           \<and> q \<le> q_ceiling i"
proof -
  note t = band_q_tables [OF assms(2,3)]
  note g = upper_gain_table [OF assms(2,3)]
  from upper_band_selected [OF assms(1)] obtain peak_idx dip_idx q0 where
    a: "np_argmax range_spectrum = Inr peak_idx" "np_argmin range_spectrum = Inr dip_idx"
    and s: "if peak_more_significant i range_spectrum peak_idx dip_idx
                then index freq_array peak_idx = Inr freq
                   \<and> gain = (range_spectrum ! peak_idx - reference_level) * upper_gain_scale i
                   \<and> calculate_q_from_spectrum range_spectrum peak_idx freq_array = Inr q0
                   \<and> q = min (q0 * peak_scale i) (q_ceiling i)
                else index freq_array dip_idx = Inr freq
                   \<and> gain = (range_spectrum ! dip_idx - reference_level) * upper_gain_scale i
                   \<and> calculate_q_from_spectrum range_spectrum dip_idx freq_array = Inr q0
                   \<and> q = min (q0 * 0.8) (dip_ceiling i)"
    unfolding t(1,2) g by blast
  have "q \<le> q_ceiling i"
    using s t(3) by (auto split: if_splits)
  with a s show ?thesis by blast
qed

theorem upper_band_q_by_selection_witness:
  "(\<exists>peak_idx dip_idx q0.
      np_argmax [0, - 10, 0] = Inr peak_idx \<and> np_argmin [0, - 10, 0] = Inr dip_idx
      \<and> \<not> peak_more_significant 4 [0, - 10, 0] peak_idx dip_idx
      \<and> index [2600, 2700, 2800 :: real] dip_idx = Inr 2700
      \<and> - 8.5 = ([0, - 10, 0] ! dip_idx - 0) * upper_gain_scale 4
      \<and> calculate_q_from_spectrum [0, - 10, 0] dip_idx [2600, 2700, 2800] = Inr q0
      \<and> 1.7 = min (q0 * 0.8) (dip_ceiling 4) \<and> 1.7 \<le> q_ceiling 4)
   \<and> (\<exists>peak_idx dip_idx q0.
      np_argmax [- 14, - 10, - 17, - 14, - 16, - 18, - 20] = Inr peak_idx
      \<and> np_argmin [- 14, - 10, - 17, - 14, - 16, - 18, - 20] = Inr dip_idx
      \<and> peak_more_significant 3 [- 14, - 10, - 17, - 14, - 16, - 18, - 20] peak_idx dip_idx
      \<and> index [800, 1000, 1200, 1400, 1600, 1800, 2000 :: real] peak_idx = Inr 1000
      \<and> 5.4 = ([- 14, - 10, - 17, - 14, - 16, - 18, - 20] ! peak_idx - (- 16)) * upper_gain_scale 3
      \<and> calculate_q_from_spectrum [- 14, - 10, - 17, - 14, - 16, - 18, - 20] peak_idx
            [800, 1000, 1200, 1400, 1600, 1800, 2000] = Inr q0
      \<and> 1.8 = min (q0 * peak_scale 3) (q_ceiling 3) \<and> 1.8 \<le> q_ceiling 3)"
proof -
  have d: "np_argmax [0, - 10, 0] = Inr 0" "np_argmin [0, - 10, 0] = Inr 1"
    "\<not> peak_more_significant 4 [0, - 10, 0] 0 1"
    by (simp_all add: np_argmax_def np_argmin_def peak_more_significant_def np_mean_def)
  have p: "np_argmax [- 14, - 10, - 17, - 14, - 16, - 18, - 20] = Inr 1"
    "np_argmin [- 14, - 10, - 17, - 14, - 16, - 18, - 20] = Inr 6"
    "peak_more_significant 3 [- 14, - 10, - 17, - 14, - 16, - 18, - 20] 1 6"
    by (simp_all add: np_argmax_def np_argmin_def peak_more_significant_def np_mean_def)
  have i: "(3::nat) \<le> 4" "(4::nat) \<le> 6" "(3::nat) \<le> 3" "(3::nat) \<le> 6" by simp_all
  from upper_band_q_by_selection [OF high_mids_dip_band i(1,2)] d
  have "\<exists>peak_idx dip_idx q0.
      np_argmax [0, - 10, 0] = Inr peak_idx \<and> np_argmin [0, - 10, 0] = Inr dip_idx
      \<and> \<not> peak_more_significant 4 [0, - 10, 0] peak_idx dip_idx
      \<and> index [2600, 2700, 2800 :: real] dip_idx = Inr 2700
      \<and> - 8.5 = ([0, - 10, 0] ! dip_idx - 0) * upper_gain_scale 4
      \<and> calculate_q_from_spectrum [0, - 10, 0] dip_idx [2600, 2700, 2800] = Inr q0
      \<and> 1.7 = min (q0 * 0.8) (dip_ceiling 4) \<and> 1.7 \<le> q_ceiling 4"
    by auto
  moreover from upper_band_q_by_selection [OF mids_peak_band i(3,4)] p
  have "\<exists>peak_idx dip_idx q0.
      np_argmax [- 14, - 10, - 17, - 14, - 16, - 18, - 20] = Inr peak_idx
      \<and> np_argmin [- 14, - 10, - 17, - 14, - 16, - 18, - 20] = Inr dip_idx
      \<and> peak_more_significant 3 [- 14, - 10, - 17, - 14, - 16, - 18, - 20] peak_idx dip_idx
      \<and> index [800, 1000, 1200, 1400, 1600, 1800, 2000 :: real] peak_idx = Inr 1000
      \<and> 5.4 = ([- 14, - 10, - 17, - 14, - 16, - 18, - 20] ! peak_idx - (- 16)) * upper_gain_scale 3
      \<and> calculate_q_from_spectrum [- 14, - 10, - 17, - 14, - 16, - 18, - 20] peak_idx
            [800, 1000, 1200, 1400, 1600, 1800, 2000] = Inr q0
      \<and> 1.8 = min (q0 * peak_scale 3) (q_ceiling 3) \<and> 1.8 \<le> q_ceiling 3"
    by auto
  ultimately show ?thesis by blast
qed

text \<open>
  The caps come before the transient factor: an Air band at its ceiling 1.5 ends at 1.95 when
  the transient factor is 1.3.
\<close>

lemma air_band_final_q: "finish_band 1.3 (12000, 0, q_ceiling 6) = (12000, 0, 1.95)"
  by (simp add: finish_band_def q_ceiling_def)

text \<open>
  The claim as stated fails on a dip. In the High Mids band a dip whose bandwidth-derived Q
  is 4 gets Q = min (3.2, 1.7) = 1.7; widened by 0.8 and capped at the band's ceiling 2.0 it
  would be 2.0.
\<close>

theorem upper_band_dip_cap_counterexample:
  "calculate_q_from_spectrum [0, - 10, 0] 1 [2600, 2700, 2800] = Inr 4
   \<and> upper_band 4 [0, - 10, 0] [2600, 2700, 2800] 0 = Inr (2700, - 8.5, 1.7)
   \<and> spec_dip_band_q 4 4 = 2
   \<and> upper_band 4 [0, - 10, 0] [2600, 2700, 2800] 0 \<noteq> Inr (2700, - 8.5, spec_dip_band_q 4 4)"
  using high_mids_dip_q high_mids_dip_band by (simp add: spec_dip_band_q_def q_ceiling_def)


section \<open>The band loop\<close>

lemma normalize_frequency_unit: "0 \<le> normalize_frequency x \<and> normalize_frequency x \<le> 1"
  by (simp add: normalize_frequency_def)

lemma normalize_gain_unit: "0 \<le> normalize_gain x \<and> normalize_gain x \<le> 1"
  by (simp add: normalize_gain_def)

lemma normalize_q_unit: "0 \<le> normalize_q x \<and> normalize_q x \<le> 1"
  by (simp add: normalize_q_def Let_def)

lemma clamp_bounds: "lo \<le> hi \<Longrightarrow> lo \<le> max (min x hi) lo \<and> max (min x hi) lo \<le> (hi::real)"
  by auto

lemma finish_band_clamped:
  assumes "finish_band t r = (freq, gain, q)"
  shows "- 12 \<le> gain \<and> gain \<le> 6 \<and> 0.5 \<le> q \<and> q \<le> 2"
proof (cases r)
  case (fields f g c)
  with assms obtain x where "gain = max (min g 6) (- 12)" "q = max (min x 2) (1 / 2)"
    by (auto simp: finish_band_def Let_def split del: if_split)
  with clamp_bounds [of "- 12" 6 g] clamp_bounds [of "1 / 2" 2 x] show ?thesis by simp
qed

lemma band_result_clamped:
  assumes "band_result i rs fa r t = Inr (freq, gain, q)"
  shows "- 12 \<le> gain \<and> gain \<le> 6 \<and> 0.5 \<le> q \<and> q \<le> 2"
proof -
  from assms obtain r0 where "finish_band t r0 = (freq, gain, q)"
    by (auto simp: band_result_def ebind_eq_Inr)
  then show ?thesis by (rule finish_band_clamped)
qed

lemma analyze_band_Inr:
  assumes "analyze_band i e s f r t = Inr (fn, gn, qn)"
  shows "\<exists>fr g q. fn = normalize_frequency fr \<and> gn = normalize_gain g \<and> - 12 \<le> g \<and> g \<le> 6
           \<and> qn = normalize_q q \<and> 0.5 \<le> q \<and> q \<le> 2"
proof (cases e)
  case (Pair low_freq high_freq)
  from assms obtain lo hi where body:
    "(slice s lo hi \<noteq> [] \<and>
        (\<exists>freq gain q. band_result i (slice s lo hi) (slice f lo hi) r t = Inr (freq, gain, q)
           \<and> fn = normalize_frequency freq \<and> gn = normalize_gain gain \<and> qn = normalize_q q))
     \<or> (fn = normalize_frequency (sqrt (low_freq * high_freq)) \<and> gn = normalize_gain 0
        \<and> qn = normalize_q 1)"
    unfolding analyze_band_def Pair
    by (fastforce simp: ebind_eq_Inr Let_def split: if_splits)
  then show ?thesis
  proof (elim disjE exE conjE)
    fix freq gain q
    assume "band_result i (slice s lo hi) (slice f lo hi) r t = Inr (freq, gain, q)"
      and "fn = normalize_frequency freq" "gn = normalize_gain gain" "qn = normalize_q q"
    with band_result_clamped [of i "slice s lo hi" "slice f lo hi" r t freq gain q]
    show ?thesis by blast
  next
    assume "fn = normalize_frequency (sqrt (low_freq * high_freq))" "gn = normalize_gain 0"
      "qn = normalize_q 1"
    moreover have "- 12 \<le> (0::real) \<and> (0::real) \<le> 6 \<and> 0.5 \<le> (1::real) \<and> (1::real) \<le> 2"
      by simp
    ultimately show ?thesis by blast
  qed
qed

lemma band_loop_stored:
  assumes "band_loop bands s f r t pd = Inr pd'"
    and "band_stored pd i \<or> i \<in> fst ` set bands"
  shows "band_stored pd' i"
  using assms
proof (induction bands arbitrary: pd)
  case Nil
  then show ?case by simp
next
  case (Cons b bands)
  obtain i0 low_freq high_freq where b: "b = (i0, low_freq, high_freq)" by (cases b) auto
  from Cons.prems(1) obtain fn gn qn where
    ab: "analyze_band i0 (low_freq, high_freq) s f r t = Inr (fn, gn, qn)"
    and rest: "band_loop bands s f r t (pd(Frequency i0 \<mapsto> fn, Gain i0 \<mapsto> gn, Q i0 \<mapsto> qn)) = Inr pd'"
    unfolding b by (auto simp: ebind_eq_Inr)
  let ?pd1 = "pd(Frequency i0 \<mapsto> fn, Gain i0 \<mapsto> gn, Q i0 \<mapsto> qn)"
  have "band_stored ?pd1 i \<or> i \<in> fst ` set bands"
  proof (cases "i = i0")
    case True
    from analyze_band_Inr [OF ab] show ?thesis
      unfolding True band_stored_def by auto
  next
    case False
    with Cons.prems(2) b have "band_stored pd i \<or> i \<in> fst ` set bands" by auto
    moreover have "band_stored pd i \<Longrightarrow> band_stored ?pd1 i"
      using False by (simp add: band_stored_def)
    ultimately show ?thesis by blast
  qed
  with Cons.IH [OF rest] show ?case by blast
qed

lemma fst_enumerate_freq_ranges: "fst ` set (enumerate 0 freq_ranges) = {..<7}"
proof -
  have "fst ` set (enumerate 0 freq_ranges) = set (map fst (enumerate 0 freq_ranges))"
    by (simp only: set_map)
  also have "\<dots> = {0..<length freq_ranges}" by simp
  also have "length freq_ranges = 7" by (simp add: freq_ranges_def)
  finally show ?thesis by (simp add: atLeast0LessThan)
qed

lemma band_loop_all_stored:
  assumes "band_loop (enumerate 0 freq_ranges) s f r t Map.empty = Inr pd" "i < 7"
  shows "band_stored pd i"
  using band_loop_stored [OF assms(1), of i] assms(2) fst_enumerate_freq_ranges by auto



section \<open>The final pass over the Q values\<close>

lemma read_actual_q_present:
  assumes "\<forall>i\<in>set is. pd (Q i) = Some (nq i)"
  shows "read_actual_q pd is = Inr (map (\<lambda>i. denormalize_q (nq i)) is)"
  using assms by (induction "is") simp_all

lemma rescale_q_other: "k \<notin> Q ` set is \<Longrightarrow> rescale_q a s is pd k = pd k"
  by (induction "is" arbitrary: pd) (auto simp: Let_def)

lemma renormalize_eq:
  "max 0 (min 1 ((log 10 x - log 10 0.1) / (log 10 10 - log 10 0.1))) = normalize_q x"
  by (simp add: normalize_q_def Let_def)

lemma rescale_q_Q:
  "i \<in> set is \<Longrightarrow> rescale_q a s is pd (Q i) = Some (normalize_q (a ! i * s))"
proof (induction "is" arbitrary: pd)
  case Nil
  then show ?case by simp
next
  case (Cons j js)
  show ?case
  proof (cases "i \<in> set js")
    case True
    with Cons.IH show ?thesis by (simp add: Let_def)
  next
    case False
    with Cons.prems have ij: "i = j" by simp
    from False have "Q i \<notin> Q ` set js" by auto
    then show ?thesis
      using renormalize_eq [of "a ! j * s"] by (simp add: Let_def rescale_q_other ij)
  qed
qed

lemma global_q_balancer_eq:
  assumes "\<forall>i<7. pd (Q i) = Some (nq i)"
  shows "global_q_balancer pd =
    Inr (if Max ((\<lambda>i. denormalize_q (nq i)) ` {..<7}) > 2
         then rescale_q (map (\<lambda>i. denormalize_q (nq i)) [0..<7])
                (2 / Max ((\<lambda>i. denormalize_q (nq i)) ` {..<7})) [0..<7] pd
         else pd)"
proof -
  have "read_actual_q pd [0..<7] = Inr (map (\<lambda>i. denormalize_q (nq i)) [0..<7])"
    using assms by (intro read_actual_q_present) simp
  moreover have "set (map (\<lambda>i. denormalize_q (nq i)) [0..<7]) = (\<lambda>i. denormalize_q (nq i)) ` {..<7}"
    by (simp only: set_map set_upt atLeast0LessThan)
  ultimately show ?thesis by (simp add: global_q_balancer_def Let_def del: upt_Suc)
qed

lemma denormalize_q_pos: "0 < denormalize_q n"
  by (simp add: denormalize_q_def)

lemma denormalize_q_le_10: "n \<le> 1 \<Longrightarrow> denormalize_q n \<le> 10"
proof -
  assume "n \<le> 1"
  then have "(10::real) powr (2 * n) \<le> 10 powr 2" by (intro powr_mono) simp_all
  then show ?thesis by (simp add: denormalize_q_eq)
qed

lemma read_actual_q_Inr:
  "read_actual_q pd is = Inr xs \<Longrightarrow> i \<in> set is \<Longrightarrow> \<exists>v. pd (Q i) = Some v"
  by (induction "is" arbitrary: xs) (auto simp: ebind_eq_Inr split: option.splits)

lemma global_q_balancer_Inr:
  assumes "global_q_balancer pd = Inr pd'"
  shows "\<forall>i<7. pd (Q i) = Some (the (pd (Q i)))"
proof (intro allI impI)
  fix i :: nat
  assume "i < 7"
  from assms obtain xs where "read_actual_q pd [0..<7] = Inr xs"
    by (auto simp: global_q_balancer_def ebind_eq_Inr)
  from read_actual_q_Inr [OF this, of i] \<open>i < 7\<close> show "pd (Q i) = Some (the (pd (Q i)))"
    by auto
qed

lemma global_q_balancer_result:
  assumes "global_q_balancer pd = Inr pd'"
  shows "pd' = pd \<or> (\<exists>a s. pd' = rescale_q a s [0..<7] pd)"
  using assms by (auto simp: global_q_balancer_def ebind_eq_Inr Let_def split: if_splits)

lemma global_q_balancer_frame:
  assumes "global_q_balancer pd = Inr pd'"
  shows "pd' (Frequency j) = pd (Frequency j)" "pd' (Gain j) = pd (Gain j)"
    "pd' ZeroLatency = pd ZeroLatency"
proof -
  have "Frequency j \<notin> Q ` set [0..<7]" "Gain j \<notin> Q ` set [0..<7]"
    "ZeroLatency \<notin> Q ` set [0..<7]" by auto
  with global_q_balancer_result [OF assms]
  show "pd' (Frequency j) = pd (Frequency j)" "pd' (Gain j) = pd (Gain j)"
    "pd' ZeroLatency = pd ZeroLatency"
    by (auto simp: rescale_q_other simp del: upt_Suc)
qed

lemma global_q_balancer_unit:
  assumes "global_q_balancer pd = Inr pd'" "pd (Q i) = Some v" "0 \<le> v" "v \<le> 1" "i < 7"
  shows "\<exists>v'. pd' (Q i) = Some v' \<and> 0 \<le> v' \<and> v' \<le> 1"
proof -
  from assms(5) have "i \<in> set [0..<7]" by simp
  with global_q_balancer_result [OF assms(1)] assms(2-4) normalize_q_unit show ?thesis
    by (auto simp: rescale_q_Q simp del: upt_Suc)
qed

section \<open>The example, stage by stage\<close>

lemma example_nearest:
  "nearest_idx example_freqs 20 = Inr 0" "nearest_idx example_freqs 150 = Inr 1"
  "nearest_idx example_freqs 400 = Inr 2" "nearest_idx example_freqs 800 = Inr 4"
  "nearest_idx example_freqs 2500 = Inr 11" "nearest_idx example_freqs 5000 = Inr 11"
  "nearest_idx example_freqs 10000 = Inr 11" "nearest_idx example_freqs 20000 = Inr 11"
  "nearest_idx example_freqs 600 = Inr 3" "nearest_idx example_freqs 1200 = Inr 6"
  "nearest_idx example_freqs 2000 = Inr 10" "nearest_idx example_freqs 3000 = Inr 11"
  by (simp_all add: nearest_idx_def np_argmin_def example_freqs_def)

lemma example_slices:
  "slice example_spectrum 0 1 = [- 40]" "slice example_freqs 0 1 = [0]"
  "slice example_spectrum 1 2 = [- 30]" "slice example_freqs 1 2 = [200]"
  "slice example_spectrum 2 4 = [- 20, - 22]" "slice example_freqs 2 4 = [400, 600]"
  "slice example_spectrum 4 11 = [- 14, - 10, - 17, - 14, - 16, - 18, - 20]"
  "slice example_freqs 4 11 = [800, 1000, 1200, 1400, 1600, 1800, 2000]"
  "slice example_spectrum 11 11 = []"
  "slice example_spectrum 2 3 = [- 20]" "slice example_spectrum 4 6 = [- 14, - 10]"
  "slice example_spectrum 10 11 = [- 20]"
  by (simp_all add: slice_def example_spectrum_def example_freqs_def)

lemma example_reference_level:
  "calculate_reference_level example_spectrum example_freqs = Inr (- 16)"
  by (simp add: calculate_reference_level_def example_nearest example_slices np_median_def
      np_average_def)

lemma example_frequency_range:
  "detect_frequency_range example_spectrum example_freqs (- 60) = Inr (20, 2200)"
  by (simp add: detect_frequency_range_def example_spectrum_def example_freqs_def index_def)

lemma example_mids_q:
  "calculate_q_from_spectrum [- 14, - 10, - 17, - 14, - 16, - 18, - 20] 1
     [800, 1000, 1200, 1400, 1600, 1800, 2000] = Inr 2"
  by (simp add: calculate_q_from_spectrum_def upper_walk.simps index_def musical_scale_def
      Let_def)

lemma example_mids:
  "band_result 3 [- 14, - 10, - 17, - 14, - 16, - 18, - 20]
     [800, 1000, 1200, 1400, 1600, 1800, 2000] (- 16) 0.9 = Inr (1000, 5.4, 1.62)"
  using example_mids_q
  by (simp add: band_result_def upper_band_def np_argmax_def np_argmin_def index_def
      np_mean_def peak_band_q_def finish_band_def Let_def)

lemma example_low_mids:
  "band_result 2 [- 20, - 22] [400, 600] (- 16) 0.9 = Inr (400, - 3.5, 0.81)"
  by (simp add: band_result_def lower_band_def np_argmax_def index_def
      np_mean_def calculate_q_from_spectrum_def finish_band_def Let_def)

lemma example_bass:
  "band_result 1 [- 30] [200] (- 16) 0.9 = Inr (200, - 9.8, 0.576)"
  by (simp add: band_result_def lower_band_def np_argmax_def index_def
      np_mean_def calculate_q_from_spectrum_def finish_band_def Let_def)

lemma example_sub_bass:
  "band_result 0 [- 40] [0] (- 16) 0.9 = Inr (0, - 12, 0.5)"
  by (simp add: band_result_def lower_band_def np_argmax_def index_def
      np_mean_def calculate_q_from_spectrum_def finish_band_def Let_def)

lemma example_bands:
  "analyze_band 0 (20, 150) example_spectrum example_freqs (- 16) 0.9
     = Inr (normalize_frequency 0, normalize_gain (- 12), normalize_q 0.5)"
  "analyze_band 1 (150, 400) example_spectrum example_freqs (- 16) 0.9
     = Inr (normalize_frequency 200, normalize_gain (- 9.8), normalize_q 0.576)"
  "analyze_band 2 (400, 800) example_spectrum example_freqs (- 16) 0.9
     = Inr (normalize_frequency 400, normalize_gain (- 3.5), normalize_q 0.81)"
  "analyze_band 3 (800, 2500) example_spectrum example_freqs (- 16) 0.9
     = Inr (normalize_frequency 1000, normalize_gain 5.4, normalize_q 1.62)"
  "analyze_band 4 (2500, 5000) example_spectrum example_freqs (- 16) 0.9
     = Inr (normalize_frequency (sqrt (2500 * 5000)), normalize_gain 0, normalize_q 1)"
  "analyze_band 5 (5000, 10000) example_spectrum example_freqs (- 16) 0.9
     = Inr (normalize_frequency (sqrt (5000 * 10000)), normalize_gain 0, normalize_q 1)"
  "analyze_band 6 (10000, 20000) example_spectrum example_freqs (- 16) 0.9
     = Inr (normalize_frequency (sqrt (10000 * 20000)), normalize_gain 0, normalize_q 1)"
  using example_mids example_low_mids example_bass example_sub_bass example_slices
  by (simp_all add: analyze_band_def example_nearest)

lemma enumerate_freq_ranges:
  "enumerate 0 freq_ranges =
     [(0, 20, 150), (1, 150, 400), (2, 400, 800), (3, 800, 2500), (4, 2500, 5000),
      (5, 5000, 10000), (6, 10000, 20000)]"
  by (simp add: freq_ranges_def)

lemma example_band_loop:
  "\<exists>pd. band_loop (enumerate 0 freq_ranges) example_spectrum example_freqs (- 16) 0.9 Map.empty
     = Inr pd"
  using example_bands by (simp add: enumerate_freq_ranges)

section \<open>The core as a whole\<close>

lemma band_stored_q:
  assumes "band_stored pd i"
  shows "\<exists>q. pd (Q i) = Some (normalize_q q) \<and> 0.5 \<le> q \<and> q \<le> 2
           \<and> denormalize_q (normalize_q q) = q"
proof -
  from assms obtain q where q: "pd (Q i) = Some (normalize_q q)" "0.5 \<le> q" "q \<le> 2"
    unfolding band_stored_def by blast
  then have "denormalize_q (normalize_q q) = q" by (intro denormalize_normalize_q) simp_all
  with q show ?thesis by blast
qed

lemma balancer_identity:
  assumes "\<forall>i<7. band_stored pd i"
  shows "global_q_balancer pd = Inr pd"
proof -
  define nq where "nq i = the (pd (Q i))" for i
  have le: "denormalize_q (nq i) \<le> 2" and present: "pd (Q i) = Some (nq i)" if "i < 7" for i
    using band_stored_q [of pd i] assms that by (auto simp: nq_def)
  have "{..<7::nat} \<noteq> {}" by (simp add: lessThan_empty_iff)
  then have "Max ((\<lambda>i. denormalize_q (nq i)) ` {..<7}) \<le> 2"
    using le by (subst Max_le_iff) auto
  with global_q_balancer_eq [of pd nq] present show ?thesis by simp
qed

lemma band_stored_zero_latency [simp]:
  "band_stored (pd(ZeroLatency \<mapsto> x)) i = band_stored pd i"
  by (simp add: band_stored_def)

lemma analyze_core_eq:
  assumes "detect_frequency_range s f (- 60) = Inr (a, b)"
    and "calculate_reference_level s f = Inr r"
    and "band_loop (enumerate 0 freq_ranges) s f r t Map.empty = Inr pd"
  shows "analyze_core src now td t s f =
    Inr \<lparr>Metadata = \<lparr>CreatedBy = ''PresetAnalyzer'', SourceFile = src, CreationDate = now,
                      TransientDensity = td, FrequencyRange = (a, b)\<rparr>,
         params = pd(ZeroLatency \<mapsto> 1)\<rparr>"
proof -
  have "global_q_balancer (pd(ZeroLatency \<mapsto> 1)) = Inr (pd(ZeroLatency \<mapsto> 1))"
    using band_loop_all_stored [OF assms(3)] by (intro balancer_identity) simp
  with assms show ?thesis by (simp add: analyze_core_def)
qed

section \<open>When the core returns a preset\<close>

text \<open>
  No stage from the band loop on raises as long as \<^verbatim>\<open>freqs\<close> is not empty: indices stay
  inside the slices, and \<^const>\<open>calculate_q_from_spectrum\<close> is total when \<^verbatim>\<open>freqs\<close> is at
  least as long as \<^verbatim>\<open>spectrum\<close>.
\<close>

lemma first_index_less:
  assumes "x \<in> set xs"
  shows "length (takeWhile (\<lambda>y. y \<noteq> x) xs) < length xs"
  using assms by (induction xs) auto

lemma np_argmin_Inr:
  assumes "xs \<noteq> []"
  shows "\<exists>k. np_argmin xs = Inr k \<and> k < length xs"
proof -
  from assms have "Min (set xs) \<in> set xs" by (intro Min_in) simp_all
  from first_index_less [OF this] assms show ?thesis by (simp add: np_argmin_def)
qed

lemma np_argmax_Inr:
  assumes "xs \<noteq> []"
  shows "\<exists>k. np_argmax xs = Inr k \<and> k < length xs"
proof -
  from assms have "Max (set xs) \<in> set xs" by (intro Max_in) simp_all
  from first_index_less [OF this] assms show ?thesis by (simp add: np_argmax_def)
qed

lemma nearest_idx_Inr:
  assumes "freqs \<noteq> []"
  shows "\<exists>k. nearest_idx freqs target = Inr k \<and> k < length freqs"
  using np_argmin_Inr [of "map (\<lambda>f. \<bar>f - target\<bar>) freqs"] assms by (simp add: nearest_idx_def)

lemma index_Inr: "i < length xs \<Longrightarrow> index xs i = Inr (xs ! i)"
  by (simp add: index_def)

lemma calculate_q_total:
  assumes "length spectrum \<le> length freqs"
  shows "\<exists>q. calculate_q_from_spectrum spectrum peak_idx freqs = Inr q"
proof (cases "peak_idx \<le> 0 \<or> int peak_idx \<ge> int (length spectrum) - 1")
  case True
  then show ?thesis by (simp add: calculate_q_from_spectrum_def)
next
  case False
  define h where "h = spectrum ! peak_idx - 3"
  from False have p: "peak_idx < length spectrum" by linarith
  have "lower_walk spectrum h peak_idx \<le> peak_idx" by (rule lower_walk_le)
  moreover have "upper_walk spectrum h peak_idx < length spectrum"
    using p by (rule upper_walk_less_length)
  ultimately have "peak_idx < length freqs" "lower_walk spectrum h peak_idx < length freqs"
    "upper_walk spectrum h peak_idx < length freqs" using assms p by simp_all
  with False show ?thesis
    unfolding calculate_q_from_spectrum_def Let_def h_def [symmetric]
    by (simp add: index_Inr)
qed

text \<open>With equal lengths the tiered default is never reached.\<close>

lemma calculate_q_interior:
  assumes "length spectrum \<le> length freqs" "0 < peak_idx" "peak_idx + 1 < length spectrum"
  defines "lo \<equiv> lower_walk spectrum (spectrum ! peak_idx - 3) peak_idx"
      and "up \<equiv> upper_walk spectrum (spectrum ! peak_idx - 3) peak_idx"
  shows "lo < peak_idx \<and> peak_idx < up \<and> up < length freqs"
proof -
  have "spectrum ! peak_idx > spectrum ! peak_idx - 3" by simp
  moreover have "int peak_idx < int (length spectrum) - 1" using assms(3) by linarith
  moreover have "up < length spectrum" unfolding up_def
    using assms(3) by (intro upper_walk_less_length) simp
  ultimately show ?thesis
    unfolding lo_def up_def using assms(1,2) lower_walk_less upper_walk_greater
    by (metis less_le_trans)
qed

lemma lower_band_total:
  assumes "rs \<noteq> []" "length rs \<le> length fa"
  shows "\<not> isl (lower_band i rs fa ref)"
proof -
  from np_argmax_Inr [OF assms(1)] obtain p where p: "np_argmax rs = Inr p" "p < length rs"
    by blast
  from calculate_q_total [OF assms(2)] obtain q where
    "calculate_q_from_spectrum rs p fa = Inr q" by blast
  with p assms(2) show ?thesis by (simp add: lower_band_def Let_def index_Inr)
qed

lemma upper_band_total:
  assumes "rs \<noteq> []" "length rs \<le> length fa"
  shows "\<not> isl (upper_band i rs fa ref)"
proof -
  from np_argmax_Inr [OF assms(1)] obtain p where p: "np_argmax rs = Inr p" "p < length rs"
    by blast
  from np_argmin_Inr [OF assms(1)] obtain d where d: "np_argmin rs = Inr d" "d < length rs"
    by blast
  from calculate_q_total [OF assms(2)] obtain qp where
    qp: "calculate_q_from_spectrum rs p fa = Inr qp" by blast
  from calculate_q_total [OF assms(2)] obtain qd where
    qd: "calculate_q_from_spectrum rs d fa = Inr qd" by blast
  from p d qp qd assms(2) show ?thesis
    by (simp add: upper_band_def Let_def index_Inr)
qed

lemma not_isl_ebind: "\<not> isl m \<Longrightarrow> (\<And>v. \<not> isl (f v)) \<Longrightarrow> \<not> isl (ebind m f)"
  by (cases m) simp_all

lemma band_result_total:
  assumes "rs \<noteq> []" "length rs \<le> length fa"
  shows "\<not> isl (band_result i rs fa ref t)"
  unfolding band_result_def
  using lower_band_total [OF assms, of i ref] upper_band_total [OF assms, of i ref]
  by (intro not_isl_ebind) simp_all

lemma analyze_band_total:
  assumes "freqs \<noteq> []"
  shows "\<not> isl (analyze_band i e spectrum freqs ref t)"
proof (cases e)
  case (Pair low_freq high_freq)
  from nearest_idx_Inr [OF assms] obtain lo where
    lo: "nearest_idx freqs low_freq = Inr lo" "lo < length freqs" by blast
  from nearest_idx_Inr [OF assms] obtain hi where
    hi: "nearest_idx freqs high_freq = Inr hi" "hi < length freqs" by blast
  have len: "length (slice spectrum lo hi) \<le> length (slice freqs lo hi)"
    using hi(2) by (simp add: slice_def)
  show ?thesis
  proof (cases "slice spectrum lo hi = []")
    case True
    with lo hi show ?thesis by (simp add: analyze_band_def Pair Let_def)
  next
    case False
    have "\<not> isl (ebind (band_result i (slice spectrum lo hi) (slice freqs lo hi) ref t)
             (\<lambda>(freq, gain, q).
                Inr (normalize_frequency freq, normalize_gain gain, normalize_q q)))"
      using band_result_total [OF False len] by (intro not_isl_ebind) (simp_all add: split_def)
    with lo hi False show ?thesis
      by (simp add: analyze_band_def Pair Let_def)
  qed
qed

lemma band_loop_total:
  assumes "freqs \<noteq> []"
  shows "\<not> isl (band_loop bands spectrum freqs ref t pd)"
proof (induction bands arbitrary: pd)
  case Nil
  show ?case by simp
next
  case (Cons b bands)
  obtain i low_freq high_freq where b: "b = (i, low_freq, high_freq)" by (cases b) auto
  show ?case unfolding b band_loop.simps
    using analyze_band_total [OF assms] Cons.IH
    by (intro not_isl_ebind) (simp_all add: split_def)
qed

lemma detect_frequency_range_total:
  assumes "length spectrum \<le> length freqs"
  shows "\<not> isl (detect_frequency_range spectrum freqs threshold_db)"
proof -
  define valid where "valid = filter (\<lambda>i. spectrum ! i > threshold_db) [0..<length spectrum]"
  show ?thesis
  proof (cases "valid = []")
    case True
    then show ?thesis by (simp add: detect_frequency_range_def valid_def)
  next
    case False
    then have "hd valid \<in> set valid" "last valid \<in> set valid" by simp_all
    then have "hd valid < length freqs" "last valid < length freqs"
      using assms by (auto simp: valid_def)
    with False show ?thesis
      by (simp add: detect_frequency_range_def valid_def [symmetric] Let_def index_Inr)
  qed
qed

lemma ref_levels_loop_total:
  assumes "freqs \<noteq> []"
  shows "\<not> isl (ref_levels_loop spectrum freqs ref_points ref_levels)"
proof (induction ref_points arbitrary: ref_levels)
  case Nil
  show ?case by simp
next
  case (Cons b ref_points)
  obtain low high where b: "b = (low, high)" by (cases b)
  from nearest_idx_Inr [OF assms] obtain lo where lo: "nearest_idx freqs low = Inr lo" by blast
  from nearest_idx_Inr [OF assms] obtain hi where hi: "nearest_idx freqs high = Inr hi" by blast
  from lo hi Cons.IH show ?case unfolding b by (simp add: Let_def)
qed

text \<open>
  With a non-empty grid that covers the spectrum, as \<^verbatim>\<open>analyze_audio\<close> builds them, the
  reference level is the only stage of the core that can raise.
\<close>

lemma analyze_core_fails_iff:
  assumes "freqs \<noteq> []" "length spectrum \<le> length freqs"
  shows "isl (analyze_core src now td t spectrum freqs)
           \<longleftrightarrow> isl (calculate_reference_level spectrum freqs)"
proof (cases "calculate_reference_level spectrum freqs")
  case (Inl e)
  from detect_frequency_range_total [OF assms(2), of "- 60"] obtain a b where
    "detect_frequency_range spectrum freqs (- 60) = Inr (a, b)"
    by (cases "detect_frequency_range spectrum freqs (- 60)") auto
  with Inl show ?thesis by (simp add: analyze_core_def)
next
  case (Inr r)
  from detect_frequency_range_total [OF assms(2), of "- 60"] obtain a b where
    d: "detect_frequency_range spectrum freqs (- 60) = Inr (a, b)"
    by (cases "detect_frequency_range spectrum freqs (- 60)") auto
  from band_loop_total [OF assms(1), of "enumerate 0 freq_ranges" spectrum r t Map.empty]
  obtain pd where
    "band_loop (enumerate 0 freq_ranges) spectrum freqs r t Map.empty = Inr pd"
    by (cases "band_loop (enumerate 0 freq_ranges) spectrum freqs r t Map.empty") auto
  from analyze_core_eq [OF d Inr this, of src now td] Inr show ?thesis by simp
qed

section \<open>The emitted values\<close>

text \<open>
  Claim C1. Whenever the core produces a preset, each of \<^verbatim>\<open>Frequency{i}\<close>, \<^verbatim>\<open>Gain{i}\<close> and
  \<^verbatim>\<open>Q{i}\<close>, for i from 0 to 6, is present and lies in [0, 1]; \<^const>\<open>analyze_band\<close> covers
  both the normal path and the fallback for an empty band. The second part is the final
  pass on its own, from any dictionary: a Q entry in [0, 1] is in [0, 1] after it, rewritten
  or not.
\<close>

theorem preset_values_in_unit_interval:
  assumes "i < 7"
  shows "(analyze_core source_file now transient_density transient_q_factor spectrum freqs = Inr p
            \<longrightarrow> (\<exists>f g q. params p (Frequency i) = Some f \<and> params p (Gain i) = Some g
                   \<and> params p (Q i) = Some q
                   \<and> 0 \<le> f \<and> f \<le> 1 \<and> 0 \<le> g \<and> g \<le> 1 \<and> 0 \<le> q \<and> q \<le> 1))
       \<and> (global_q_balancer pd = Inr pd' \<and> pd (Q i) = Some v \<and> 0 \<le> v \<and> v \<le> 1
            \<longrightarrow> (\<exists>v'. pd' (Q i) = Some v' \<and> 0 \<le> v' \<and> v' \<le> 1))"
proof (intro conjI impI)
  assume "analyze_core source_file now transient_density transient_q_factor spectrum freqs = Inr p"
  then obtain reference_level pd0 pd1 where
    loop: "band_loop (enumerate 0 freq_ranges) spectrum freqs reference_level
             transient_q_factor Map.empty = Inr pd0"
    and bal: "global_q_balancer (pd0(ZeroLatency \<mapsto> 1)) = Inr pd1"
    and p: "params p = pd1"
    by (auto simp: analyze_core_def ebind_eq_Inr)
  from band_loop_all_stored [OF loop assms] obtain fr g q where
    st: "pd0 (Frequency i) = Some (normalize_frequency fr)"
      "pd0 (Gain i) = Some (normalize_gain g)" "pd0 (Q i) = Some (normalize_q q)"
    unfolding band_stored_def by blast
  have "pd1 (Frequency i) = Some (normalize_frequency fr)"
    "pd1 (Gain i) = Some (normalize_gain g)"
    using global_q_balancer_frame [OF bal] st by simp_all
  moreover from st(3) have "(pd0(ZeroLatency \<mapsto> 1)) (Q i) = Some (normalize_q q)" by simp
  from global_q_balancer_unit [OF bal this _ _ assms] normalize_q_unit
  obtain v' where "pd1 (Q i) = Some v'" "0 \<le> v'" "v' \<le> 1" by blast
  ultimately show "\<exists>f g q. params p (Frequency i) = Some f \<and> params p (Gain i) = Some g
                   \<and> params p (Q i) = Some q
                   \<and> 0 \<le> f \<and> f \<le> 1 \<and> 0 \<le> g \<and> g \<le> 1 \<and> 0 \<le> q \<and> q \<le> 1"
    using normalize_frequency_unit normalize_gain_unit p by auto
next
  assume "global_q_balancer pd = Inr pd' \<and> pd (Q i) = Some v \<and> 0 \<le> v \<and> v \<le> 1"
  then show "\<exists>v'. pd' (Q i) = Some v' \<and> 0 \<le> v' \<and> v' \<le> 1"
    using global_q_balancer_unit [of pd pd' i v] assms by blast
qed



theorem preset_values_in_unit_interval_witness:
  "\<exists>p f g q. analyze_core ''tone.wav'' ''2024-05-01 12:00:00'' 0 0.9 example_spectrum
                 example_freqs = Inr p
     \<and> params p (Frequency 3) = Some f \<and> params p (Gain 3) = Some g \<and> params p (Q 3) = Some q
     \<and> 0 \<le> f \<and> f \<le> 1 \<and> 0 \<le> g \<and> g \<le> 1 \<and> 0 \<le> q \<and> q \<le> 1"
proof -
  from example_band_loop obtain pd where
    "band_loop (enumerate 0 freq_ranges) example_spectrum example_freqs (- 16) 0.9 Map.empty
       = Inr pd" by blast
  from analyze_core_eq [OF example_frequency_range example_reference_level this]
  obtain p where h: "analyze_core ''tone.wav'' ''2024-05-01 12:00:00'' 0 0.9 example_spectrum
                 example_freqs = Inr p" by blast
  have "(3::nat) < 7" by simp
  from preset_values_in_unit_interval [OF this, of "''tone.wav''" "''2024-05-01 12:00:00''" 0 "0.9"
      example_spectrum example_freqs p] h
  show ?thesis by blast
qed

section \<open>The Q values that reach the final pass\<close>

text \<open>
  Claim C10. After the band loop every \<^verbatim>\<open>Q{i}\<close> is the normalised form of a Q that was
  clamped to [0.5, 2.0] (the fallback 1.0 included), and denormalising returns that Q, so no
  denormalised value exceeds 2.0: in exact arithmetic the final pass takes the branch that
  leaves the dictionary as it is.
\<close>

theorem balancer_input_within_ceiling:
  assumes "band_loop (enumerate 0 freq_ranges) spectrum freqs reference_level
             transient_q_factor Map.empty = Inr pd"
    and "i < 7"
  shows "(\<exists>q. pd (Q i) = Some (normalize_q q) \<and> 0.5 \<le> q \<and> q \<le> 2
            \<and> denormalize_q (normalize_q q) = q)
       \<and> global_q_balancer (pd(ZeroLatency \<mapsto> 1)) = Inr (pd(ZeroLatency \<mapsto> 1))"
proof
  from band_loop_all_stored [OF assms] show "\<exists>q. pd (Q i) = Some (normalize_q q) \<and> 0.5 \<le> q
    \<and> q \<le> 2 \<and> denormalize_q (normalize_q q) = q" by (rule band_stored_q)
  show "global_q_balancer (pd(ZeroLatency \<mapsto> 1)) = Inr (pd(ZeroLatency \<mapsto> 1))"
    using band_loop_all_stored [OF assms(1)] by (intro balancer_identity) simp
qed

theorem balancer_input_within_ceiling_witness:
  "\<exists>pd. band_loop (enumerate 0 freq_ranges) example_spectrum example_freqs (- 16) 0.9 Map.empty
          = Inr pd
     \<and> (\<exists>q. pd (Q 3) = Some (normalize_q q) \<and> 0.5 \<le> q \<and> q \<le> 2
            \<and> denormalize_q (normalize_q q) = q)
     \<and> global_q_balancer (pd(ZeroLatency \<mapsto> 1)) = Inr (pd(ZeroLatency \<mapsto> 1))"
proof -
  from example_band_loop obtain pd where
    h: "band_loop (enumerate 0 freq_ranges) example_spectrum example_freqs (- 16) 0.9 Map.empty
          = Inr pd" by blast
  have "(3::nat) < 7" by simp
  from balancer_input_within_ceiling [OF h this] h show ?thesis by blast
qed



section \<open>From the band loop to the final pass\<close>

text \<open>
  Every dictionary the band loop produces meets the two conditions under which the final
  pass is studied below: the seven Q entries are present, their actual values are at least
  0.5, and the normalised values are at most 1.
\<close>

lemma band_loop_q_range:
  assumes "band_loop (enumerate 0 freq_ranges) s f r t Map.empty = Inr pd" "i < 7"
  shows "\<exists>v. (pd(ZeroLatency \<mapsto> 1)) (Q i) = Some v \<and> 0.5 \<le> denormalize_q v \<and> v \<le> 1"
proof -
  from band_stored_q [OF band_loop_all_stored [OF assms]] obtain q where
    "pd (Q i) = Some (normalize_q q)" "0.5 \<le> q" "denormalize_q (normalize_q q) = q" by blast
  then show ?thesis using normalize_q_unit [of q] by simp
qed

section \<open>The final pass as a ceiling\<close>

text \<open>
  Claim C2. The final pass runs on seven normalised Q values whose actual (denormalised)
  values are at least 0.5, as the clamp of line 553 and the fallback 1.0 guarantee, and at
  most 10. With \<open>m\<close> the largest actual value: if \<open>m\<close> is at most 2.0 the dictionary is
  left as it is; if \<open>m\<close> exceeds 2.0 every \<^verbatim>\<open>Q{i}\<close> becomes the normalised form of its actual
  value times the one factor 2.0 / m. Either way no actual value exceeds 2.0 afterwards, and
  the ratio of the actual values of any two bands is what it was before.
\<close>

theorem global_q_balancer_ceiling:
  fixes pd :: preset_data and nq :: "nat \<Rightarrow> real"
  defines "actual \<equiv> \<lambda>i. denormalize_q (nq i)"
  defines "m \<equiv> Max (actual ` {..<7})"
  assumes present: "\<forall>i<7. pd (Q i) = Some (nq i)"
    and range: "\<forall>i<7. 0.5 \<le> actual i \<and> nq i \<le> 1"
  shows "\<exists>pd'. global_q_balancer pd = Inr pd'
           \<and> (m \<le> 2 \<longrightarrow> pd' = pd)
           \<and> (2 < m \<longrightarrow> (\<forall>i<7. pd' (Q i) = Some (normalize_q (actual i * (2 / m)))))
           \<and> (\<forall>i<7. \<exists>v. pd' (Q i) = Some v \<and> denormalize_q v \<le> 2)
           \<and> (\<forall>i<7. \<forall>j<7. \<exists>v w. pd' (Q i) = Some v \<and> pd' (Q j) = Some w
                  \<and> denormalize_q v / denormalize_q w = actual i / actual j)"
proof -
  define c where "c = (if 2 < m then 2 / m else 1)"
  define pd' where
    "pd' = (if 2 < m then rescale_q (map actual [0..<7]) (2 / m) [0..<7] pd else pd)"
  have run: "global_q_balancer pd = Inr pd'"
    using global_q_balancer_eq [OF present] by (simp add: pd'_def m_def actual_def)
  have fin: "finite (actual ` {..<7})" "actual ` {..<7} \<noteq> {}"
    by (simp_all add: lessThan_empty_iff)
  have le_m: "actual i \<le> m" if "i < 7" for i
    unfolding m_def using that fin(1) by (intro Max_ge) auto
  from Max_in [OF fin] obtain k where k: "k < 7" "m = actual k"
    unfolding m_def by auto
  have m_le: "m \<le> 10" using k range denormalize_q_le_10 [of "nq k"] by (simp add: actual_def)
  have m_pos: "0 < m" using k denormalize_q_pos [of "nq k"] by (simp add: actual_def)
  have c_pos: "0 < c" using m_pos by (simp add: c_def)
  have stored: "pd' (Q i) = Some (normalize_q (actual i * (2 / m)))" if "2 < m" "i < 7" for i
  proof -
    from that(2) have "i \<in> set [0..<7]" by simp
    then have "rescale_q (map actual [0..<7]) (2 / m) [0..<7] pd (Q i)
        = Some (normalize_q (map actual [0..<7] ! i * (2 / m)))" by (rule rescale_q_Q)
    moreover have "map actual [0..<7] ! i = actual i"
      using that(2) nth_map_upt [of i 7 0 actual] by simp
    ultimately show ?thesis using that(1) by (simp add: pd'_def)
  qed
  have key: "\<exists>v. pd' (Q i) = Some v \<and> denormalize_q v = actual i * c" if i: "i < 7" for i
  proof (cases "2 < m")
    case True
    have lo: "0.5 \<le> actual i" using range i by simp
    have "actual i * (2 / m) \<le> 2"
      using le_m [OF i] m_pos by (simp add: field_simps)
    moreover have "1 / 10 \<le> actual i * (2 / m)"
    proof -
      have "m \<le> 20 * actual i" using lo m_le by linarith
      then show ?thesis using m_pos by (simp add: field_simps)
    qed
    ultimately have "denormalize_q (normalize_q (actual i * (2 / m))) = actual i * (2 / m)"
      by (intro denormalize_normalize_q) simp_all
    with stored [OF True i] True show ?thesis by (simp add: c_def)
  next
    case False
    with present i show ?thesis by (simp add: pd'_def c_def actual_def)
  qed
  have ceiling: "\<exists>v. pd' (Q i) = Some v \<and> denormalize_q v \<le> 2" if i: "i < 7" for i
  proof -
    from key [OF i] obtain v where v: "pd' (Q i) = Some v" "denormalize_q v = actual i * c"
      by blast
    have "actual i * c \<le> 2"
    proof (cases "2 < m")
      case True
      then show ?thesis using le_m [OF i] m_pos by (simp add: c_def field_simps)
    next
      case False
      then show ?thesis using le_m [OF i] by (simp add: c_def)
    qed
    with v show ?thesis by auto
  qed
  have ratio: "\<exists>v w. pd' (Q i) = Some v \<and> pd' (Q j) = Some w
      \<and> denormalize_q v / denormalize_q w = actual i / actual j" if "i < 7" "j < 7" for i j
  proof -
    from key [OF that(1)] obtain v where v: "pd' (Q i) = Some v" "denormalize_q v = actual i * c"
      by blast
    from key [OF that(2)] obtain w where w: "pd' (Q j) = Some w" "denormalize_q w = actual j * c"
      by blast
    have "actual i * c / (actual j * c) = actual i / actual j" using c_pos by simp
    with v w show ?thesis by auto
  qed
  have unchanged: "m \<le> 2 \<longrightarrow> pd' = pd" by (simp add: pd'_def)
  from run unchanged stored ceiling ratio show ?thesis by blast
qed

lemma wide_denormalized: "denormalize_q (wide_q i) = (if i = 0 then 10 else 1)"
  by (simp add: wide_q_def denormalize_q_eq)

lemma wide_max: "Max ((\<lambda>i. denormalize_q (wide_q i)) ` {..<7}) = 10"
proof (rule Max_eqI)
  show "finite ((\<lambda>i. denormalize_q (wide_q i)) ` {..<7})" by simp
  show "y \<le> 10" if "y \<in> (\<lambda>i. denormalize_q (wide_q i)) ` {..<7}" for y
    using that by (auto simp: wide_denormalized)
  have "(0::nat) \<in> {..<7}" by simp
  then show "10 \<in> (\<lambda>i. denormalize_q (wide_q i)) ` {..<7}"
    using wide_denormalized [of 0] by (metis (mono_tags, lifting) image_eqI)
qed

theorem global_q_balancer_ceiling_witness:
  "\<exists>pd'. global_q_balancer wide_preset_data = Inr pd'
     \<and> pd' (Q 0) = Some (normalize_q 2) \<and> pd' (Q 1) = Some (normalize_q 0.2)
     \<and> (\<exists>v. pd' (Q 0) = Some v \<and> denormalize_q v \<le> 2)
     \<and> (\<exists>v w. pd' (Q 0) = Some v \<and> pd' (Q 1) = Some w \<and> denormalize_q v / denormalize_q w = 10)"
proof -
  have present: "\<forall>i<7. wide_preset_data (Q i) = Some (wide_q i)"
    by (simp add: wide_preset_data_def)
  have range: "\<forall>i<7. 0.5 \<le> denormalize_q (wide_q i) \<and> wide_q i \<le> 1"
    by (simp add: wide_denormalized) (simp add: wide_q_def)
  from global_q_balancer_ceiling [OF present range] obtain pd' where
    run: "global_q_balancer wide_preset_data = Inr pd'"
    and st: "2 < (10::real) \<longrightarrow>
      (\<forall>i<7. pd' (Q i) = Some (normalize_q (denormalize_q (wide_q i) * (2 / 10))))"
    and ce: "\<forall>i<7. \<exists>v. pd' (Q i) = Some v \<and> denormalize_q v \<le> 2"
    and ra: "\<forall>i<7. \<forall>j<7. \<exists>v w. pd' (Q i) = Some v \<and> pd' (Q j) = Some w
      \<and> denormalize_q v / denormalize_q w = denormalize_q (wide_q i) / denormalize_q (wide_q j)"
    unfolding wide_max by blast
  from st have "pd' (Q 0) = Some (normalize_q 2)" "pd' (Q 1) = Some (normalize_q 0.2)"
    by (simp_all add: wide_denormalized)
  moreover from ce have "\<exists>v. pd' (Q 0) = Some v \<and> denormalize_q v \<le> 2" by simp
  moreover from ra [rule_format, of 0 1]
  have "\<exists>v w. pd' (Q 0) = Some v \<and> pd' (Q 1) = Some w \<and> denormalize_q v / denormalize_q w = 10"
    by (simp add: wide_denormalized)
  ultimately show ?thesis using run by blast
qed

section \<open>Determinism and the clock\<close>





end
